theory Spec2Isabelle
  imports Complex_Main "HOL-Library.Word"
begin

unbundle bit_operations_syntax

section \<open>ESP32 RTSP microphone firmware: shallow embedding\<close>

text \<open>
  The firmware keeps its whole runtime state in free globals of one sketch
  (\<^verbatim>\<open>esp32_rtsp_mic_birdnetgo.ino\<close>) and one Web UI module. The embedding keeps
  them as the fields of one record, under the names of the source.

  Conventions of the embedding.
  \<^item> \<^verbatim>\<open>uint8_t\<close>, \<^verbatim>\<open>uint16_t\<close>, \<^verbatim>\<open>uint32_t\<close> and \<^verbatim>\<open>unsigned long\<close> (32 bits on the
    ESP32) are words of that width; \<^verbatim>\<open>int\<close> is \<open>int\<close> where the source keeps it in range.
  \<^item> \<^verbatim>\<open>float\<close> values are real numbers: single-precision rounding is not modelled.
  \<^item> An Arduino \<^verbatim>\<open>String\<close> built by concatenating literals and formatted numbers is the
    list of its pieces, numbers kept as values (\<open>msg\<close>); the empty \<^verbatim>\<open>String\<close> is \<open>[]\<close>.
  \<^item> \<^verbatim>\<open>millis()\<close>, the temperature sensor, the heap allocator, the random generator and
    the peer of the TCP connection are inputs of the functions that read them.
\<close>

subsection \<open>Text, log and the preferences store\<close>

datatype piece = Str string | Flt real nat | Num nat

type_synonym msg = "piece list"

datatype pref_value =
    PUInt "32 word" | PUShort "16 word" | PUChar "8 word"
  | PFloat real | PBool bool | PString msg

type_synonym preferences = "string \<Rightarrow> pref_value option"

subsection \<open>Wi-Fi transmit power levels\<close>

datatype wifi_power_t =
    WIFI_POWER_19_5dBm | WIFI_POWER_19dBm | WIFI_POWER_18_5dBm | WIFI_POWER_17dBm
  | WIFI_POWER_15dBm | WIFI_POWER_13dBm | WIFI_POWER_11dBm | WIFI_POWER_8_5dBm
  | WIFI_POWER_7dBm | WIFI_POWER_5dBm | WIFI_POWER_2dBm | WIFI_POWER_MINUS_1dBm


subsection \<open>The high-pass filter section\<close>

record Biquad =
  b0 :: real
  b1 :: real
  b2 :: real
  a1 :: real
  a2 :: real
  x1 :: real
  x2 :: real
  y1 :: real
  y2 :: real

definition Biquad_process :: "Biquad \<Rightarrow> real \<Rightarrow> real \<times> Biquad" where
  "Biquad_process f x =
    (let y = b0 f * x + b1 f * x1 f + b2 f * x2 f - a1 f * y1 f - a2 f * y2 f
     in (y, f\<lparr>x2 := x1 f, x1 := x, y2 := y1 f, y1 := y\<rparr>))"

definition Biquad_reset :: "Biquad \<Rightarrow> Biquad" where
  "Biquad_reset f = f\<lparr>x1 := 0, x2 := 0, y1 := 0, y2 := 0\<rparr>"

subsection \<open>The TCP client of the RTSP session\<close>

text \<open>
  Replies written with \<^verbatim>\<open>client.print\<close> are recorded by kind: their text (status line,
  \<^verbatim>\<open>CSeq\<close> echo, SDP body) is not modelled. Binary writes go through \<^verbatim>\<open>client.write\<close>,
  which accepts some prefix of the bytes offered and returns its length, or 0 on
  failure: \<open>accept\<close> lists, call by call, how many bytes the connection will take
  (0, or no entry left, is a failed write).
\<close>

datatype rtsp_reply =
    OptionsReply | DescribeReply "32 word" | SetupReply msg
  | PlayReply msg | TeardownReply msg | GetParameterReply

record WiFiClient =
  connected :: bool
  rx :: "char list"
  replies :: "rtsp_reply list"
  accept :: "nat list"
  sent :: "8 word list"

definition WiFiClient_stop :: "WiFiClient \<Rightarrow> WiFiClient" where
  "WiFiClient_stop c = c\<lparr>connected := False, rx := []\<rparr>"

definition client_write :: "WiFiClient \<Rightarrow> 8 word list \<Rightarrow> nat \<times> WiFiClient" where
  "client_write c data =
    (case accept c of
       [] \<Rightarrow> (0, c)
     | a # rest \<Rightarrow>
         (let w = min a (length data)
          in (w, c\<lparr>accept := rest, sent := sent c @ take w data\<rparr>)))"

subsection \<open>The globals of the sketch\<close>

record device =
  rtspServerListening :: bool
  rtspClient :: WiFiClient
  rtspSessionId :: msg
  isStreaming :: bool
  rtpSequence :: "16 word"
  rtpTimestamp :: "32 word"
  rtpSSRC :: "32 word"
  lastRTSPActivity :: "32 word"
  rtspParseBuffer :: "nat \<Rightarrow> char"
  rtspParseBufferPos :: int
  i2s_16bit_buffer :: "16 word list"
  audioPacketsSent :: "32 word"
  lastStatsReset :: "32 word"
  rtspServerEnabled :: bool
  currentSampleRate :: "32 word"
  currentGainFactor :: real
  currentBufferSize :: "16 word"
  i2sShiftBits :: "8 word"
  lastPeakAbs16 :: "16 word"
  audioClipCount :: "32 word"
  audioClippedLastBlock :: bool
  peakHoldAbs16 :: "16 word"
  peakHoldUntilMs :: "32 word"
  highpassEnabled :: bool
  highpassCutoffHz :: "16 word"
  hpf :: Biquad
  hpfConfigSampleRate :: "32 word"
  hpfConfigCutoff :: "16 word"
  audioPrefs :: preferences
  maxPacketRate :: "32 word"
  minPacketRate :: "32 word"
  autoRecoveryEnabled :: bool
  autoThresholdEnabled :: bool
  bootTime :: "32 word"
  maxTemperature :: real
  lastTemperatureC :: real
  lastTemperatureValid :: bool
  overheatProtectionEnabled :: bool
  overheatShutdownC :: real
  overheatLockoutActive :: bool
  overheatTripTemp :: real
  overheatTriggeredAt :: "32 word"
  overheatLastReason :: msg
  overheatLastTimestamp :: msg
  overheatSensorFault :: bool
  overheatLatched :: bool
  lastTempWarn :: "32 word"
  scheduledResetEnabled :: bool
  resetIntervalHours :: "32 word"
  minAcceptableRate :: "32 word"
  performanceCheckInterval :: "32 word"
  cpuFrequencyMhz :: "8 word"
  cpuFrequencyApplied :: "8 word"
  wifiTxPowerDbm :: real
  currentWifiPowerLevel :: wifi_power_t
  radioTxPowerCalls :: "wifi_power_t list"
  lastRtspPlayMs :: "32 word"
  rtspPlayCount :: "32 word"
  serialLog :: "msg list"
  webLog :: "msg list"
  webResponse :: "(nat \<times> string \<times> string) option"

text \<open>
  Beside the globals of the source the record holds what the hardware calls act on:
  \<open>rtspServerListening\<close> (\<^verbatim>\<open>rtspServer.begin()\<close> and \<^verbatim>\<open>stop()\<close>),
  \<open>radioTxPowerCalls\<close> (the arguments of \<^verbatim>\<open>WiFi.setTxPower\<close>, in order),
  \<open>cpuFrequencyApplied\<close> (\<^verbatim>\<open>setCpuFrequencyMhz\<close>), \<open>serialLog\<close> (the lines of
  \<^verbatim>\<open>Serial.println\<close>), \<open>webLog\<close> (the lines pushed to the Web UI log; the source keeps
  the last 80 in a ring, the list keeps them all), \<open>webResponse\<close> (status, content type
  and body of the reply of the HTTP handler that ran last) and \<open>lastTempWarn\<close> (the static
  local of \<^verbatim>\<open>checkTemperature\<close>).
\<close>

definition webui_pushLog :: "msg \<Rightarrow> device \<Rightarrow> device" where
  "webui_pushLog line s = s\<lparr>webLog := webLog s @ [line]\<rparr>"

definition simplePrintln :: "msg \<Rightarrow> device \<Rightarrow> device" where
  "simplePrintln message s = webui_pushLog message (s\<lparr>serialLog := serialLog s @ [message]\<rparr>)"

definition apiSendJSON :: "string \<Rightarrow> device \<Rightarrow> device" where
  "apiSendJSON json s = s\<lparr>webResponse := Some (200, ''application/json'', json)\<rparr>"

subsection \<open>PowerManager\<close>

fun wifiPowerLevelToDbm :: "wifi_power_t \<Rightarrow> real" where
  "wifiPowerLevelToDbm WIFI_POWER_19_5dBm = 19.5"
| "wifiPowerLevelToDbm WIFI_POWER_19dBm = 19.0"
| "wifiPowerLevelToDbm WIFI_POWER_18_5dBm = 18.5"
| "wifiPowerLevelToDbm WIFI_POWER_17dBm = 17.0"
| "wifiPowerLevelToDbm WIFI_POWER_15dBm = 15.0"
| "wifiPowerLevelToDbm WIFI_POWER_13dBm = 13.0"
| "wifiPowerLevelToDbm WIFI_POWER_11dBm = 11.0"
| "wifiPowerLevelToDbm WIFI_POWER_8_5dBm = 8.5"
| "wifiPowerLevelToDbm WIFI_POWER_7dBm = 7.0"
| "wifiPowerLevelToDbm WIFI_POWER_5dBm = 5.0"
| "wifiPowerLevelToDbm WIFI_POWER_2dBm = 2.0"
| "wifiPowerLevelToDbm WIFI_POWER_MINUS_1dBm = -1.0"

definition pickWifiPowerLevel :: "real \<Rightarrow> wifi_power_t" where
  "pickWifiPowerLevel dbm =
    (if dbm \<le> -1.0 then WIFI_POWER_MINUS_1dBm
     else if dbm \<le> 2.0 then WIFI_POWER_2dBm
     else if dbm \<le> 5.0 then WIFI_POWER_5dBm
     else if dbm \<le> 7.0 then WIFI_POWER_7dBm
     else if dbm \<le> 8.5 then WIFI_POWER_8_5dBm
     else if dbm \<le> 11.0 then WIFI_POWER_11dBm
     else if dbm \<le> 13.0 then WIFI_POWER_13dBm
     else if dbm \<le> 15.0 then WIFI_POWER_15dBm
     else if dbm \<le> 17.0 then WIFI_POWER_17dBm
     else if dbm \<le> 18.5 then WIFI_POWER_18_5dBm
     else if dbm \<le> 19.0 then WIFI_POWER_19dBm
     else WIFI_POWER_19_5dBm)"

text \<open>The table \<^verbatim>\<open>steps[]\<close> of \<^verbatim>\<open>snapWifiTxDbm\<close> (Web UI module).\<close>

definition steps :: "real list" where
  "steps = [-1.0, 2.0, 5.0, 7.0, 8.5, 11.0, 13.0, 15.0, 17.0, 18.5, 19.0, 19.5]"

text \<open>
  The loop of \<^verbatim>\<open>snapWifiTxDbm\<close> over the entries after the first, carrying
  \<^verbatim>\<open>best\<close> and \<^verbatim>\<open>bestd\<close>: an entry replaces the best one only when strictly closer.
\<close>

fun snap_loop :: "real \<Rightarrow> real list \<Rightarrow> real \<times> real \<Rightarrow> real \<times> real" where
  "snap_loop dbm [] (best, bestd) = (best, bestd)"
| "snap_loop dbm (x # xs) (best, bestd) =
    (let d = \<bar>dbm - x\<bar>
     in if d < bestd then snap_loop dbm xs (x, d) else snap_loop dbm xs (best, bestd))"

definition snapWifiTxDbm :: "real \<Rightarrow> real" where
  "snapWifiTxDbm dbm = fst (snap_loop dbm (tl steps) (hd steps, \<bar>dbm - hd steps\<bar>))"


definition applyWifiTxPower :: "bool \<Rightarrow> device \<Rightarrow> device" where
  "applyWifiTxPower doLog s =
    (let desired = pickWifiPowerLevel (wifiTxPowerDbm s)
     in if desired \<noteq> currentWifiPowerLevel s
        then (let s1 = s\<lparr>radioTxPowerCalls := radioTxPowerCalls s @ [desired],
                          currentWifiPowerLevel := desired\<rparr>
              in if doLog
                 then simplePrintln
                        [Str ''WiFi TX power set to '',
                         Flt (wifiPowerLevelToDbm (currentWifiPowerLevel s1)) 1,
                         Str '' dBm''] s1
                 else s1)
        else s)"


subsection \<open>Conversions of the C arithmetic\<close>

text \<open>
  A conversion from \<^verbatim>\<open>float\<close> to an integer type truncates toward zero; the value is
  then taken in the width of the target (C leaves an out-of-range value undefined).
\<close>

definition truncf :: "real \<Rightarrow> int" where
  "truncf x = (if 0 \<le> x then \<lfloor>x\<rfloor> else \<lceil>x\<rceil>)"

definition f2u32 :: "real \<Rightarrow> 32 word" where
  "f2u32 x = word_of_int (truncf x)"

definition f2u16 :: "real \<Rightarrow> 16 word" where
  "f2u16 x = word_of_int (truncf x)"

definition f2i16 :: "real \<Rightarrow> 16 word" where
  "f2i16 x = word_of_int (truncf x)"

definition u2f :: "'a::len word \<Rightarrow> real" where
  "u2f w = real (unat w)"

subsection \<open>SignalConditioner: the high-pass coefficients\<close>

definition updateHighpassCoeffs :: "device \<Rightarrow> device" where
  "updateHighpassCoeffs s =
    (if \<not> highpassEnabled s
     then s\<lparr>hpf := Biquad_reset (hpf s),
            hpfConfigSampleRate := currentSampleRate s,
            hpfConfigCutoff := highpassCutoffHz s\<rparr>
     else
      (let fs = u2f (currentSampleRate s);
           fc0 = u2f (highpassCutoffHz s);
           fc1 = (if fc0 < 10.0 then 10.0 else fc0);
           fc = (if fc1 > fs * 0.45 then fs * 0.45 else fc1);
           pi_f = 3.14159265358979323846;
           w0 = 2.0 * pi_f * (fc / fs);
           cosw0 = cos w0;
           sinw0 = sin w0;
           Q = 0.70710678;
           alpha = sinw0 / (2.0 * Q);
           c0 = (1.0 + cosw0) * 0.5;
           c1 = - (1.0 + cosw0);
           c2 = (1.0 + cosw0) * 0.5;
           d0 = 1.0 + alpha;
           d1 = - 2.0 * cosw0;
           d2 = 1.0 - alpha
       in s\<lparr>hpf := Biquad_reset
                       ((hpf s)\<lparr>b0 := c0 / d0, b1 := c1 / d0, b2 := c2 / d0,
                                 a1 := d1 / d0, a2 := d2 / d0\<rparr>),
              hpfConfigSampleRate := currentSampleRate s,
              hpfConfigCutoff := f2u16 fc\<rparr>))"

text \<open>
  The test \<^verbatim>\<open>streamAudio\<close> makes before every block:
  \<^verbatim>\<open>highpassEnabled && (hpfConfigSampleRate != currentSampleRate || hpfConfigCutoff != highpassCutoffHz)\<close>.
\<close>

definition hpfStale :: "device \<Rightarrow> bool" where
  "hpfStale s =
    (if highpassEnabled s
     then (if hpfConfigSampleRate s \<noteq> currentSampleRate s then True
           else hpfConfigCutoff s \<noteq> highpassCutoffHz s)
     else False)"

subsection \<open>ReliabilitySupervisor: the adaptive threshold\<close>

definition computeRecommendedMinRate :: "device \<Rightarrow> 32 word" where
  "computeRecommendedMinRate s =
    (let buf = (ucast (max 1 (currentBufferSize s)) :: 32 word);
         expectedPktPerSec = u2f (currentSampleRate s) / u2f buf;
         rec = f2u32 (expectedPktPerSec * 0.7 + 0.5)
     in if rec < 5 then 5 else rec)"

subsection \<open>ThermalGuard\<close>

datatype reading = Reading real | ReadingNaN | ReadingInf

fun reading_value :: "reading \<Rightarrow> real" where
  "reading_value (Reading t) = t"
| "reading_value ReadingNaN = 0"
| "reading_value ReadingInf = 0"

definition OVERHEAT_MIN_LIMIT_C :: nat where "OVERHEAT_MIN_LIMIT_C = 30"
definition OVERHEAT_MAX_LIMIT_C :: nat where "OVERHEAT_MAX_LIMIT_C = 95"
definition OVERHEAT_LIMIT_STEP_C :: nat where "OVERHEAT_LIMIT_STEP_C = 5"

fun isTemperatureValid :: "reading \<Rightarrow> bool" where
  "isTemperatureValid ReadingNaN = False"
| "isTemperatureValid ReadingInf = False"
| "isTemperatureValid (Reading temp) = (if temp < -20.0 \<or> temp > 130.0 then False else True)"

definition formatUptime :: "32 word \<Rightarrow> msg" where
  "formatUptime secs =
    (let days = secs div 86400;
         secs1 = secs mod 86400;
         hours = secs1 div 3600;
         secs2 = secs1 mod 3600;
         minutes = secs2 div 60;
         secs3 = secs2 mod 60
     in (if days > 0 then [Num (unat days), Str ''d ''] else [])
      @ (if hours > 0 \<or> days > 0 then [Num (unat hours), Str ''h ''] else [])
      @ (if minutes > 0 \<or> hours > 0 \<or> days > 0 then [Num (unat minutes), Str ''m ''] else [])
      @ [Num (unat secs3), Str ''s''])"

definition persistOverheatNote :: "device \<Rightarrow> device" where
  "persistOverheatNote s =
    s\<lparr>audioPrefs := (audioPrefs s)
         (''ohReason'' \<mapsto> PString (overheatLastReason s),
          ''ohStamp'' \<mapsto> PString (overheatLastTimestamp s),
          ''ohTripC'' \<mapsto> PFloat (overheatTripTemp s),
          ''ohLatched'' \<mapsto> PBool (overheatLatched s))\<rparr>"

definition recordOverheatTrip :: "32 word \<Rightarrow> real \<Rightarrow> device \<Rightarrow> device" where
  "recordOverheatTrip now temp s =
    (let uptimeSeconds = (now - bootTime s) div 1000;
         s1 = s\<lparr>overheatTripTemp := temp,
                 overheatTriggeredAt := now,
                 overheatLastTimestamp := formatUptime uptimeSeconds,
                 overheatLastReason :=
                   [Str ''Thermal shutdown: '', Flt temp 1, Str '' C reached (limit '',
                    Flt (overheatShutdownC s) 1,
                    Str '' C). Stream disabled; acknowledge in UI.''],
                 overheatLatched := True\<rparr>;
         s2 = simplePrintln (Str ''THERMAL PROTECTION: '' # overheatLastReason s1) s1;
         s3 = simplePrintln
                [Str ''TIP: Improve cooling or lower WiFi TX power/CPU MHz if overheating persists.'']
                s2
     in persistOverheatNote s3)"

text \<open>
  \<^verbatim>\<open>checkTemperature\<close>, block by block: the branch of an implausible reading, the
  restoration after a sensor fault, the protection proper with the trip, and the
  high-temperature warning.
\<close>

definition sensor_unavailable :: "device \<Rightarrow> device" where
  "sensor_unavailable s =
    (let s1 = s\<lparr>lastTemperatureValid := False\<rparr>
     in if \<not> overheatSensorFault s1
        then simplePrintln
               [Str ''WARNING: Temperature sensor unavailable. Thermal protection paused.'']
               (persistOverheatNote
                 (s1\<lparr>overheatSensorFault := True,
                     overheatLastReason :=
                       [Str ''Thermal protection disabled: temperature sensor unavailable.''],
                     overheatLastTimestamp := [],
                     overheatTripTemp := 0.0,
                     overheatTriggeredAt := 0\<rparr>))
        else s1)"

definition sensor_restored :: "32 word \<Rightarrow> device \<Rightarrow> device" where
  "sensor_restored now s =
    (if overheatSensorFault s
     then simplePrintln
            [Str ''Temperature sensor restored. Thermal protection active again.'']
            (persistOverheatNote
              (s\<lparr>overheatSensorFault := False,
                 overheatLastReason :=
                   [Str ''Thermal protection restored: temperature sensor reading valid.''],
                 overheatLastTimestamp := formatUptime ((now - bootTime s) div 1000)\<rparr>))
     else s)"

definition thermal_trip :: "32 word \<Rightarrow> real \<Rightarrow> device \<Rightarrow> device" where
  "thermal_trip now temp s =
    (let t1 = recordOverheatTrip now temp (s\<lparr>overheatLockoutActive := True\<rparr>);
         t2 = (if connected (rtspClient t1)
               then t1\<lparr>rtspClient := WiFiClient_stop (rtspClient t1)\<rparr>
               else t1);
         t3 = (if isStreaming t2 then t2\<lparr>isStreaming := False\<rparr> else t2)
     in t3\<lparr>rtspServerEnabled := False, rtspServerListening := False\<rparr>)"

definition thermal_protect :: "32 word \<Rightarrow> real \<Rightarrow> device \<Rightarrow> device" where
  "thermal_protect now temp s =
    (let protectionActive = (overheatProtectionEnabled s \<and> \<not> overheatSensorFault s)
     in if protectionActive
        then
         (if \<not> overheatLockoutActive s \<and> temp \<ge> overheatShutdownC s
          then thermal_trip now temp s
          else if overheatLockoutActive s
                  \<and> temp \<le> overheatShutdownC s - real OVERHEAT_LIMIT_STEP_C
          then s\<lparr>overheatLockoutActive := False\<rparr>
          else s)
        else s\<lparr>overheatLockoutActive := False\<rparr>)"

definition high_temp_warning :: "32 word \<Rightarrow> real \<Rightarrow> device \<Rightarrow> device" where
  "high_temp_warning now temp s =
    (let warnThreshold = max (overheatShutdownC s - 5.0) (real OVERHEAT_MIN_LIMIT_C)
     in if temp > warnThreshold \<and> now - lastTempWarn s > 600000
        then (simplePrintln
                [Str ''WARNING: High temperature detected ('', Flt temp 1,
                 Str '' C). Approaching shutdown limit.''] s)\<lparr>lastTempWarn := now\<rparr>
        else s)"

definition checkTemperature :: "32 word \<Rightarrow> reading \<Rightarrow> device \<Rightarrow> device" where
  "checkTemperature now rd s =
    (if \<not> isTemperatureValid rd then sensor_unavailable s
     else
      (let temp = reading_value rd;
           s1 = s\<lparr>lastTemperatureC := temp, lastTemperatureValid := True\<rparr>;
           s2 = sensor_restored now s1;
           s3 = (if temp > maxTemperature s2 then s2\<lparr>maxTemperature := temp\<rparr> else s2);
           s4 = thermal_protect now temp s3
       in high_temp_warning now temp s4))"

subsection \<open>ConfigStore: saving the settings\<close>

definition saveAudioSettings :: "device \<Rightarrow> device" where
  "saveAudioSettings s =
    (let ohLimit0 = f2u32 (overheatShutdownC s + 0.5);
         ohLimit1 = (if ohLimit0 < word_of_nat OVERHEAT_MIN_LIMIT_C
                     then word_of_nat OVERHEAT_MIN_LIMIT_C else ohLimit0);
         ohLimit = (if ohLimit1 > word_of_nat OVERHEAT_MAX_LIMIT_C
                    then word_of_nat OVERHEAT_MAX_LIMIT_C else ohLimit1)
     in simplePrintln [Str ''Settings saved to flash'']
         (s\<lparr>audioPrefs := (audioPrefs s)
            (''sampleRate'' \<mapsto> PUInt (currentSampleRate s),
             ''gainFactor'' \<mapsto> PFloat (currentGainFactor s),
             ''bufferSize'' \<mapsto> PUShort (currentBufferSize s),
             ''shiftBits'' \<mapsto> PUChar (i2sShiftBits s),
             ''autoRecovery'' \<mapsto> PBool (autoRecoveryEnabled s),
             ''schedReset'' \<mapsto> PBool (scheduledResetEnabled s),
             ''resetHours'' \<mapsto> PUInt (resetIntervalHours s),
             ''minRate'' \<mapsto> PUInt (minAcceptableRate s),
             ''checkInterval'' \<mapsto> PUInt (performanceCheckInterval s),
             ''thrAuto'' \<mapsto> PBool (autoThresholdEnabled s),
             ''cpuFreq'' \<mapsto> PUChar (cpuFrequencyMhz s),
             ''wifiTxDbm'' \<mapsto> PFloat (wifiTxPowerDbm s),
             ''hpEnable'' \<mapsto> PBool (highpassEnabled s),
             ''hpCutoff'' \<mapsto> PUInt (ucast (highpassCutoffHz s)),
             ''ohEnable'' \<mapsto> PBool (overheatProtectionEnabled s),
             ''ohThresh'' \<mapsto> PUInt ohLimit,
             ''ohReason'' \<mapsto> PString (overheatLastReason s),
             ''ohStamp'' \<mapsto> PString (overheatLastTimestamp s),
             ''ohTripC'' \<mapsto> PFloat (overheatTripTemp s),
             ''ohLatched'' \<mapsto> PBool (overheatLatched s))\<rparr>))"


subsection \<open>Restarting the capture pipeline\<close>

text \<open>
  \<^verbatim>\<open>ESP.restart()\<close> does not return: a function that can reach it yields an
  \<open>outcome\<close>, and \<open>DeviceRestart\<close> carries the globals as they are at the call (of
  them the preferences store alone survives the restart).
  \<^verbatim>\<open>restartI2S\<close> reaches it when \<^verbatim>\<open>malloc\<close> fails; whether the
  allocations succeed is the input \<open>heapOk\<close>. A fresh buffer is taken zero-filled
  (C leaves its contents indeterminate). The sketch is modelled as built for a
  standard I2S microphone (\<^verbatim>\<open>MIC_TYPE_PDM\<close> undefined, \<^verbatim>\<open>WEBUI_HAS_SHIFT_BITS\<close> 1).
\<close>

datatype 'a outcome = DeviceRestart 'a | Done 'a

definition I2S_DMA_BUF_COUNT :: nat where "I2S_DMA_BUF_COUNT = 8"

definition setup_i2s_driver :: "device \<Rightarrow> device" where
  "setup_i2s_driver s =
    (let dma_buf_len = (if currentBufferSize s > 512 then 512 else currentBufferSize s)
     in simplePrintln
          [Str ''I2S ready: '', Num (unat (currentSampleRate s)), Str ''Hz, gain '',
           Flt (currentGainFactor s) 1, Str '', buffer '', Num (unat (currentBufferSize s)),
           Str '', shiftBits '', Num (unat (i2sShiftBits s)),
           Str '', DMA '', Num I2S_DMA_BUF_COUNT, Str ''x'', Num (unat dma_buf_len)] s)"

definition restartI2S :: "bool \<Rightarrow> device \<Rightarrow> device outcome" where
  "restartI2S heapOk s =
    (let s1 = (simplePrintln [Str ''Restarting I2S with new parameters...''] s)
                \<lparr>isStreaming := False\<rparr>
     in if \<not> heapOk
        then DeviceRestart
               (simplePrintln [Str ''FATAL: Memory allocation failed after parameter change!''] s1)
        else
         (let s2 = s1\<lparr>i2s_16bit_buffer := replicate (unat (currentBufferSize s1)) 0\<rparr>;
              s3 = updateHighpassCoeffs (setup_i2s_driver s2);
              s4 = s3\<lparr>maxPacketRate := 0, minPacketRate := 0xFFFFFFFF\<rparr>
          in Done (simplePrintln [Str ''I2S restarted successfully''] s4)))"

subsection \<open>The HTTP handlers of the dashboard that mutate the state\<close>

text \<open>
  A request carries the argument \<^verbatim>\<open>key\<close> and, when present, the argument
  \<^verbatim>\<open>value\<close>; the results of the library conversions \<^verbatim>\<open>toInt()\<close> and \<^verbatim>\<open>toFloat()\<close> on
  the value are given with it.
\<close>

record http_request =
  arg_key :: string
  hasArg_value :: bool
  arg_value :: string
  arg_value_toInt :: int
  arg_value_toFloat :: real

definition web_arg_value :: "http_request \<Rightarrow> string" where
  "web_arg_value req = (if hasArg_value req then arg_value req else [])"

definition on_or_off :: "string \<Rightarrow> bool" where
  "on_or_off v = (v = ''on'' \<or> v = ''off'')"

definition after_save :: "device \<Rightarrow> device outcome" where
  "after_save s = Done (saveAudioSettings s)"

text \<open>
  \<^verbatim>\<open>httpSet\<close> up to its last statement: the log line and the chain of setters. The last
  statement, \<^verbatim>\<open>apiSendJSON(F("{\"ok\":true}"))\<close>, is reached unless the device restarted.
\<close>

definition httpSet_setters :: "bool \<Rightarrow> http_request \<Rightarrow> device \<Rightarrow> device outcome" where
  "httpSet_setters heapOk req s =
    (let k = arg_key req;
         val = web_arg_value req;
         has = hasArg_value req;
         vf = arg_value_toFloat req;
         vu32 = (word_of_int (arg_value_toInt req) :: 32 word);
         vu16 = (word_of_int (arg_value_toInt req) :: 16 word);
         vu8 = (word_of_int (arg_value_toInt req) :: 8 word);
         s0 = (if val \<noteq> [] then webui_pushLog [Str ''UI set: '', Str k, Str ''='', Str val] s
               else s)
     in
          (if k = ''gain'' then
             (if has \<and> vf \<ge> 0.1 \<and> vf \<le> 100.0
              then restartI2S heapOk (saveAudioSettings (s0\<lparr>currentGainFactor := vf\<rparr>))
              else Done s0)
           else if k = ''rate'' then
             (if has \<and> vu32 \<ge> 8000 \<and> vu32 \<le> 96000
              then (let a = s0\<lparr>currentSampleRate := vu32\<rparr>;
                        b = (if autoThresholdEnabled a
                             then a\<lparr>minAcceptableRate := computeRecommendedMinRate a\<rparr>
                             else a)
                    in restartI2S heapOk (saveAudioSettings b))
              else Done s0)
           else if k = ''buffer'' then
             (if has \<and> vu16 \<ge> 256 \<and> vu16 \<le> 8192
              then (let a = s0\<lparr>currentBufferSize := vu16\<rparr>;
                        b = (if autoThresholdEnabled a
                             then a\<lparr>minAcceptableRate := computeRecommendedMinRate a\<rparr>
                             else a)
                    in restartI2S heapOk (saveAudioSettings b))
              else Done s0)
           else if k = ''shift'' then
             (if has \<and> vu8 \<le> 24
              then restartI2S heapOk (saveAudioSettings (s0\<lparr>i2sShiftBits := vu8\<rparr>))
              else Done s0)
           else if k = ''wifi_tx'' then
             (if has \<and> vf \<ge> -1.0 \<and> vf \<le> 19.5
              then after_save (applyWifiTxPower True (s0\<lparr>wifiTxPowerDbm := snapWifiTxDbm vf\<rparr>))
              else Done s0)
           else if k = ''auto_recovery'' then
             (if on_or_off val
              then after_save (s0\<lparr>autoRecoveryEnabled := (val = ''on'')\<rparr>)
              else Done s0)
           else if k = ''thr_mode'' then
             (if val = ''auto''
              then (let a = s0\<lparr>autoThresholdEnabled := True\<rparr>
                    in after_save (a\<lparr>minAcceptableRate := computeRecommendedMinRate a\<rparr>))
              else if val = ''manual''
              then after_save (s0\<lparr>autoThresholdEnabled := False\<rparr>)
              else Done s0)
           else if k = ''min_rate'' then
             (if has \<and> vu32 \<ge> 5 \<and> vu32 \<le> 200
              then after_save (s0\<lparr>minAcceptableRate := vu32\<rparr>)
              else Done s0)
           else if k = ''check_interval'' then
             (if has \<and> vu32 \<ge> 1 \<and> vu32 \<le> 60
              then after_save (s0\<lparr>performanceCheckInterval := vu32\<rparr>)
              else Done s0)
           else if k = ''sched_reset'' then
             (if on_or_off val
              then after_save (s0\<lparr>scheduledResetEnabled := (val = ''on'')\<rparr>)
              else Done s0)
           else if k = ''reset_hours'' then
             (if has \<and> vu32 \<ge> 1 \<and> vu32 \<le> 168
              then after_save (s0\<lparr>resetIntervalHours := vu32\<rparr>)
              else Done s0)
           else if k = ''cpu_freq'' then
             (if has \<and> vu32 \<ge> 40 \<and> vu32 \<le> 160
              then after_save (s0\<lparr>cpuFrequencyMhz := ucast vu32,
                                     cpuFrequencyApplied := ucast vu32\<rparr>)
              else Done s0)
           else if k = ''hp_enable'' then
             (if on_or_off val
              then after_save (updateHighpassCoeffs (s0\<lparr>highpassEnabled := (val = ''on'')\<rparr>))
              else Done s0)
           else if k = ''hp_cutoff'' then
             (if has \<and> vu32 \<ge> 10 \<and> vu32 \<le> 10000
              then after_save (updateHighpassCoeffs (s0\<lparr>highpassCutoffHz := ucast vu32\<rparr>))
              else Done s0)
           else if k = ''oh_enable'' then
             (if on_or_off val
              then (let a = s0\<lparr>overheatProtectionEnabled := (val = ''on'')\<rparr>;
                        b = (if \<not> overheatProtectionEnabled a
                             then a\<lparr>overheatLockoutActive := False\<rparr> else a)
                    in after_save b)
              else Done s0)
           else if k = ''oh_limit'' then
             (if has \<and> vu32 \<ge> word_of_nat OVERHEAT_MIN_LIMIT_C
                  \<and> vu32 \<le> word_of_nat OVERHEAT_MAX_LIMIT_C
              then (let snapped = word_of_nat OVERHEAT_MIN_LIMIT_C
                          + ((vu32 - word_of_nat OVERHEAT_MIN_LIMIT_C)
                               div word_of_nat OVERHEAT_LIMIT_STEP_C)
                            * word_of_nat OVERHEAT_LIMIT_STEP_C
                    in after_save (s0\<lparr>overheatShutdownC := u2f snapped,
                                         overheatLockoutActive := False\<rparr>))
              else Done s0)
           else Done s0))"

definition httpSet :: "bool \<Rightarrow> http_request \<Rightarrow> device \<Rightarrow> device outcome" where
  "httpSet heapOk req s =
    (case httpSet_setters heapOk req s of
       DeviceRestart r \<Rightarrow> DeviceRestart r
     | Done s1 \<Rightarrow> Done (apiSendJSON ''{\"ok\":true}'' s1))"






subsection \<open>StreamPacketizer\<close>

text \<open>
  \<^verbatim>\<open>writeAll\<close> offers the bytes not yet written until none is left or a write
  returns 0. The loop ends because every successful write takes at least one byte.
\<close>

function writeAll :: "WiFiClient \<Rightarrow> 8 word list \<Rightarrow> bool \<times> WiFiClient" where
  "writeAll client data =
    (if data = [] then (True, client)
     else (case client_write client data of
             (w, client') \<Rightarrow>
               if w = 0 then (False, client') else writeAll client' (drop w data)))"
  by pat_completeness auto
termination
  by (relation "measure (\<lambda>(client, data). length data)") auto

declare writeAll.simps [simp del]

definition bswap16 :: "16 word \<Rightarrow> 16 word" where
  "bswap16 s = (push_bit 8 s) OR (drop_bit 8 s)"

text \<open>The two bytes of a sample as they lie in the little-endian memory of the ESP32.\<close>

definition sample_bytes :: "16 word \<Rightarrow> 8 word list" where
  "sample_bytes w = [ucast w, ucast (drop_bit 8 w)]"

text \<open>
  \<^verbatim>\<open>sendRTPPacket(client, audioData, numSamples)\<close>: the client and the sample buffer
  are passed by reference, so the function returns both with the globals. The
  buffer is expected to hold at least \<open>numSamples\<close> samples.
\<close>

definition interleaved_header :: "int \<Rightarrow> 8 word list" where
  "interleaved_header numSamples =
    (let payloadSize = (word_of_int (numSamples * 2) :: 16 word);
         packetSize = (12 + payloadSize :: 16 word)
     in [0x24, 0x00,
         ucast ((drop_bit 8 packetSize) AND 0xFF),
         ucast (packetSize AND 0xFF)])"

definition rtp_header :: "device \<Rightarrow> 8 word list" where
  "rtp_header s =
    [0x80, 96,
     ucast ((drop_bit 8 (rtpSequence s)) AND 0xFF),
     ucast (rtpSequence s AND 0xFF),
     ucast ((drop_bit 24 (rtpTimestamp s)) AND 0xFF),
     ucast ((drop_bit 16 (rtpTimestamp s)) AND 0xFF),
     ucast ((drop_bit 8 (rtpTimestamp s)) AND 0xFF),
     ucast (rtpTimestamp s AND 0xFF),
     ucast ((drop_bit 24 (rtpSSRC s)) AND 0xFF),
     ucast ((drop_bit 16 (rtpSSRC s)) AND 0xFF),
     ucast ((drop_bit 8 (rtpSSRC s)) AND 0xFF),
     ucast (rtpSSRC s AND 0xFF)]"

text \<open>The loop that swaps the bytes of the first \<open>numSamples\<close> samples in place.\<close>

definition swap_samples :: "16 word list \<Rightarrow> int \<Rightarrow> 16 word list" where
  "swap_samples audioData numSamples =
    map bswap16 (take (nat numSamples) audioData) @ drop (nat numSamples) audioData"

text \<open>The \<^verbatim>\<open>payloadSize\<close> bytes that start at \<^verbatim>\<open>(uint8_t*)audioData\<close>.\<close>

definition payload_bytes :: "16 word list \<Rightarrow> int \<Rightarrow> 8 word list" where
  "payload_bytes audioData numSamples =
    take (unat (word_of_int (numSamples * 2) :: 16 word)) (concat (map sample_bytes audioData))"

definition sendRTPPacket ::
  "WiFiClient \<Rightarrow> 16 word list \<Rightarrow> int \<Rightarrow> device \<Rightarrow> WiFiClient \<times> 16 word list \<times> device" where
  "sendRTPPacket client audioData numSamples s =
    (if \<not> connected client then (client, audioData, s)
     else
      (let inter = interleaved_header numSamples;
           header = rtp_header s;
           swapped = swap_samples audioData numSamples
       in case writeAll client inter of
            (ok1, c1) \<Rightarrow>
              if \<not> ok1 then (c1, swapped, s\<lparr>isStreaming := False\<rparr>)
              else (case writeAll c1 header of
                (ok2, c2) \<Rightarrow>
                  if \<not> ok2 then (c2, swapped, s\<lparr>isStreaming := False\<rparr>)
                  else (case writeAll c2 (payload_bytes swapped numSamples) of
                    (ok3, c3) \<Rightarrow>
                      if \<not> ok3 then (c3, swapped, s\<lparr>isStreaming := False\<rparr>)
                      else (c3, swapped,
                            s\<lparr>rtpSequence := rtpSequence s + 1,
                              rtpTimestamp := rtpTimestamp s + word_of_int numSamples,
                              audioPacketsSent := audioPacketsSent s + 1\<rparr>)))))"

text \<open>
  The three segments of a packet written in order, stopping at the first
  \<^verbatim>\<open>writeAll\<close> that fails: the condition of the \<^verbatim>\<open>if\<close> in \<^verbatim>\<open>sendRTPPacket\<close>.
\<close>

fun write_segments :: "WiFiClient \<Rightarrow> 8 word list list \<Rightarrow> bool \<times> WiFiClient" where
  "write_segments client [] = (True, client)"
| "write_segments client (seg # segs) =
    (case writeAll client seg of
       (ok, client') \<Rightarrow> if ok then write_segments client' segs else (False, client'))"

definition packet_segments :: "16 word list \<Rightarrow> int \<Rightarrow> device \<Rightarrow> 8 word list list" where
  "packet_segments audioData numSamples s =
    [interleaved_header numSamples, rtp_header s,
     payload_bytes (swap_samples audioData numSamples) numSamples]"

subsection \<open>SignalConditioner and AudioCapture\<close>

text \<open>
  The per-sample loop of \<^verbatim>\<open>streamAudio\<close> over the raw 32-bit samples of one block. It
  carries the filter, \<^verbatim>\<open>clipped\<close> and \<^verbatim>\<open>peakAbs\<close>, and yields the 16-bit samples it
  stores in \<^verbatim>\<open>i2s_16bit_buffer\<close>.
\<close>

fun block_loop ::
  "bool \<Rightarrow> real \<Rightarrow> 8 word \<Rightarrow> 32 word list \<Rightarrow> Biquad \<Rightarrow> bool \<Rightarrow> real
     \<Rightarrow> Biquad \<times> bool \<times> real \<times> 16 word list" where
  "block_loop hp gain sh [] f clipped peakAbs = (f, clipped, peakAbs, [])"
| "block_loop hp gain sh (r # rs) f clipped peakAbs =
    (let sample0 = real_of_int (sint (signed_drop_bit (unat sh) r));
         filtered = (if hp then Biquad_process f sample0 else (sample0, f));
         sample = fst filtered;
         f' = snd filtered;
         amplified = sample * gain;
         aabs = \<bar>amplified\<bar>;
         peakAbs' = (if aabs > peakAbs then aabs else peakAbs);
         clipped' = (if aabs > 32767 then True else clipped);
         amplified1 = (if amplified > 32767 then 32767 else amplified);
         amplified2 = (if amplified1 < -32768 then -32768 else amplified1)
     in (case block_loop hp gain sh rs f' clipped' peakAbs' of
           (f'', clipped'', peakAbs'', out) \<Rightarrow> (f'', clipped'', peakAbs'', f2i16 amplified2 # out)))"

text \<open>
  The amplified value of every sample of a block, before saturation: the values
  \<^verbatim>\<open>amplified\<close> takes in the loop, in order.
\<close>

fun amplified_block :: "bool \<Rightarrow> real \<Rightarrow> 8 word \<Rightarrow> 32 word list \<Rightarrow> Biquad \<Rightarrow> real list" where
  "amplified_block hp gain sh [] f = []"
| "amplified_block hp gain sh (r # rs) f =
    (let sample0 = real_of_int (sint (signed_drop_bit (unat sh) r));
         filtered = (if hp then Biquad_process f sample0 else (sample0, f))
     in fst filtered * gain # amplified_block hp gain sh rs (snd filtered))"

text \<open>The value the loop stores for an amplified sample \<open>a\<close>, before the conversion to 16 bits.\<close>

definition saturate :: "real \<Rightarrow> real" where
  "saturate a = (if a > 32767 then 32767 else if a < -32768 then -32768 else a)"

text \<open>One sample through shift, filter and gain: the amplified value and the filter after it.\<close>

definition amplify :: "bool \<Rightarrow> real \<Rightarrow> 8 word \<Rightarrow> 32 word \<Rightarrow> Biquad \<Rightarrow> real \<times> Biquad" where
  "amplify hp gain sh r f =
    (let sample0 = real_of_int (sint (signed_drop_bit (unat sh) r));
         filtered = (if hp then Biquad_process f sample0 else (sample0, f))
     in (fst filtered * gain, snd filtered))"

text \<open>
  \<^verbatim>\<open>i2s_read\<close> is an input: whether it returned \<^verbatim>\<open>ESP_OK\<close>, and the samples it
  delivered (never more than the \<^verbatim>\<open>currentBufferSize\<close> asked for).
\<close>

text \<open>
  The body of \<^verbatim>\<open>streamAudio\<close> for a block that was read, in the blocks of the source:
  the metering update after the loop, the peak hold, and before them the staleness
  check of the filter and the loop itself.
\<close>

definition update_metering :: "bool \<Rightarrow> real \<Rightarrow> device \<Rightarrow> device" where
  "update_metering clipped peakAbs s =
    (let peakAbs1 = (if peakAbs > 32767 then 32767 else peakAbs)
     in s\<lparr>lastPeakAbs16 := f2u16 peakAbs1,
          audioClippedLastBlock := clipped,
          audioClipCount := (if clipped then audioClipCount s + 1 else audioClipCount s)\<rparr>)"

definition update_peak_hold :: "32 word \<Rightarrow> device \<Rightarrow> device" where
  "update_peak_hold now s =
    (if lastPeakAbs16 s > peakHoldAbs16 s
     then s\<lparr>peakHoldAbs16 := lastPeakAbs16 s, peakHoldUntilMs := now + 3000\<rparr>
     else if peakHoldAbs16 s > 0 \<and> now > peakHoldUntilMs s
     then s\<lparr>peakHoldAbs16 := 0\<rparr>
     else s)"

definition condition_block :: "32 word list \<Rightarrow> 32 word \<Rightarrow> device \<Rightarrow> device" where
  "condition_block raw now s =
    (let s1 = (if hpfStale s then updateHighpassCoeffs s else s)
     in case block_loop (highpassEnabled s1) (currentGainFactor s1) (i2sShiftBits s1)
               raw (hpf s1) False 0 of
          (f, clipped, peakAbs, out) \<Rightarrow>
            update_peak_hold now
              (update_metering clipped peakAbs
                (s1\<lparr>hpf := f,
                    i2s_16bit_buffer := out @ drop (length out) (i2s_16bit_buffer s1)\<rparr>)))"

definition streamAudio ::
  "WiFiClient \<Rightarrow> bool \<times> 32 word list \<Rightarrow> 32 word \<Rightarrow> device \<Rightarrow> WiFiClient \<times> device" where
  "streamAudio client rd now s =
    (if \<not> isStreaming s \<or> \<not> connected client then (client, s)
     else
      (let result_ok = fst rd;
           raw = take (unat (currentBufferSize s)) (snd rd)
       in if result_ok \<and> raw \<noteq> []
          then
           (let samplesRead = int (length raw);
                s3 = condition_block raw now s
            in case sendRTPPacket client (i2s_16bit_buffer s3) samplesRead s3 of
                 (client', buf', s4) \<Rightarrow> (client', s4\<lparr>i2s_16bit_buffer := buf'\<rparr>))
          else (client, s)))"

subsection \<open>SessionProtocol\<close>

definition startsWith :: "string \<Rightarrow> string \<Rightarrow> bool" where
  "startsWith request verb = (take (length verb) request = verb)"

definition client_print :: "rtsp_reply \<Rightarrow> WiFiClient \<Rightarrow> WiFiClient" where
  "client_print r client = client\<lparr>replies := replies client @ [r]\<rparr>"

text \<open>
  \<^verbatim>\<open>handleRTSPCommand\<close>; \<open>rnd\<close> is the value \<^verbatim>\<open>random(100000000, 999999999)\<close>
  returns for \<^verbatim>\<open>SETUP\<close>.
\<close>

definition handleRTSPCommand ::
  "WiFiClient \<Rightarrow> string \<Rightarrow> 32 word \<Rightarrow> nat \<Rightarrow> device \<Rightarrow> WiFiClient \<times> device" where
  "handleRTSPCommand client request now rnd s =
    (let s0 = s\<lparr>lastRTSPActivity := now\<rparr>
     in if startsWith request ''OPTIONS'' then (client_print OptionsReply client, s0)
        else if startsWith request ''DESCRIBE''
        then (client_print (DescribeReply (currentSampleRate s0)) client, s0)
        else if startsWith request ''SETUP''
        then (let s1 = s0\<lparr>rtspSessionId := [Num rnd]\<rparr>
              in (client_print (SetupReply (rtspSessionId s1)) client, s1))
        else if startsWith request ''PLAY''
        then (client_print (PlayReply (rtspSessionId s0)) client,
              simplePrintln [Str ''STREAMING STARTED'']
                (s0\<lparr>isStreaming := True,
                    rtpSequence := 0,
                    rtpTimestamp := 0,
                    audioPacketsSent := 0,
                    lastStatsReset := now,
                    lastRtspPlayMs := now,
                    rtspPlayCount := rtspPlayCount s0 + 1\<rparr>))
        else if startsWith request ''TEARDOWN''
        then (client_print (TeardownReply (rtspSessionId s0)) client,
              simplePrintln [Str ''STREAMING STOPPED''] (s0\<lparr>isStreaming := False\<rparr>))
        else if startsWith request ''GET_PARAMETER''
        then (client_print GetParameterReply client, s0)
        else (client, s0))"

text \<open>
  The parse buffer \<^verbatim>\<open>uint8_t rtspParseBuffer[1024]\<close> is a store from index to byte;
  indices from \<open>RTSP_BUF_SIZE\<close> on lie outside the array. A write there, and a scan
  that leaves the array, are errors of the model.
\<close>

definition RTSP_BUF_SIZE :: nat where "RTSP_BUF_SIZE = 1024"

datatype mem_error = WritePastBuffer | ReadPastBuffer

datatype scan = Found nat | NotFound | LeftBuffer

definition CR :: char where "CR = CHR 0x0D"
definition LF :: char where "LF = CHR 0x0A"
definition NUL :: char where "NUL = CHR 0x00"

text \<open>
  \<^verbatim>\<open>strstr((char*)rtspParseBuffer, "\r\n\r\n")\<close> scans from index \<open>i\<close> up to the
  first NUL byte, whatever \<^verbatim>\<open>rtspParseBufferPos\<close> is; \<open>n\<close> bounds the scan to the array.
\<close>

fun strstr_from :: "(nat \<Rightarrow> char) \<Rightarrow> nat \<Rightarrow> nat \<Rightarrow> scan" where
  "strstr_from buf 0 i = LeftBuffer"
| "strstr_from buf (Suc n) i =
    (if buf i = NUL then NotFound
     else if i + 3 < RTSP_BUF_SIZE
             \<and> buf i = CR \<and> buf (i + 1) = LF \<and> buf (i + 2) = CR \<and> buf (i + 3) = LF
     then Found i
     else strstr_from buf n (i + 1))"

definition strstr_crlfcrlf :: "(nat \<Rightarrow> char) \<Rightarrow> scan" where
  "strstr_crlfcrlf buf = strstr_from buf RTSP_BUF_SIZE 0"

text \<open>\<^verbatim>\<open>client.read(buf + pos, n)\<close> stores the bytes at \<open>pos\<close>, \<open>pos + 1\<close>, ...\<close>

fun store_bytes :: "(nat \<Rightarrow> char) \<Rightarrow> nat \<Rightarrow> char list \<Rightarrow> (nat \<Rightarrow> char)" where
  "store_bytes buf pos [] = buf"
| "store_bytes buf pos (b # bs) = store_bytes (buf(pos := b)) (pos + 1) bs"

text \<open>
  \<^verbatim>\<open>memmove(rtspParseBuffer, rtspParseBuffer + headerLen, rtspParseBufferPos - headerLen)\<close>:
  the count is an \<^verbatim>\<open>int\<close> converted to \<^verbatim>\<open>size_t\<close> (32 bits), so a negative count
  becomes a count above \<open>2 ^ 31\<close>.
\<close>

definition size_t_of_int :: "int \<Rightarrow> nat" where
  "size_t_of_int k = nat (k mod 2 ^ 32)"

definition memmove_front ::
  "(nat \<Rightarrow> char) \<Rightarrow> nat \<Rightarrow> nat \<Rightarrow> mem_error + (nat \<Rightarrow> char)" where
  "memmove_front buf src cnt =
    (if cnt > RTSP_BUF_SIZE then Inl WritePastBuffer
     else if src + cnt > RTSP_BUF_SIZE then Inl ReadPastBuffer
     else Inr (\<lambda>i. if i < cnt then buf (src + i) else buf i))"

definition processRTSP ::
  "WiFiClient \<Rightarrow> 32 word \<Rightarrow> nat \<Rightarrow> device \<Rightarrow> mem_error + (WiFiClient \<times> device)" where
  "processRTSP client now rnd s =
    (if \<not> connected client then Inr (client, s)
     else if rx client \<noteq> []
     then
      (let available0 = int (length (rx client));
           pos = rtspParseBufferPos s;
           capped = (pos + available0 \<ge> int RTSP_BUF_SIZE);
           available = (if capped then int RTSP_BUF_SIZE - pos - 1 else available0)
       in if capped \<and> available \<le> 0
          then Inr (client,
                    (simplePrintln [Str ''RTSP buffer overflow - resetting''] s)
                      \<lparr>rtspParseBufferPos := 0\<rparr>)
          else if pos < 0 \<or> pos + available > int RTSP_BUF_SIZE then Inl WritePastBuffer
          else
           (let bytes = take (nat available) (rx client);
                client1 = client\<lparr>rx := drop (nat available) (rx client)\<rparr>;
                buf1 = store_bytes (rtspParseBuffer s) (nat pos) bytes;
                pos1 = pos + available
            in case strstr_crlfcrlf buf1 of
                 LeftBuffer \<Rightarrow> Inl ReadPastBuffer
               | NotFound \<Rightarrow>
                   Inr (client1, s\<lparr>rtspParseBuffer := buf1, rtspParseBufferPos := pos1\<rparr>)
               | Found e \<Rightarrow>
                   (let buf2 = buf1(e := NUL);
                        request = map buf2 [0..<e];
                        s1 = s\<lparr>rtspParseBuffer := buf2, rtspParseBufferPos := pos1\<rparr>
                    in case handleRTSPCommand client1 request now rnd s1 of
                         (client2, s2) \<Rightarrow>
                           (let headerLen = int e + 4
                            in case memmove_front (rtspParseBuffer s2) (nat headerLen)
                                      (size_t_of_int (rtspParseBufferPos s2 - headerLen)) of
                                 Inl err \<Rightarrow> Inl err
                               | Inr buf3 \<Rightarrow>
                                   Inr (client2,
                                        s2\<lparr>rtspParseBuffer := buf3,
                                           rtspParseBufferPos :=
                                             rtspParseBufferPos s2 - headerLen\<rparr>)))))
     else Inr (client, s))"


subsection \<open>The globals at power-up\<close>

text \<open>The initial values the declarations of the sketch give its globals.\<close>

definition boot_state :: device where
  "boot_state =
    \<lparr>rtspServerListening = False,
     rtspClient = \<lparr>connected = False, rx = [], replies = [], accept = [], sent = []\<rparr>,
     rtspSessionId = [],
     isStreaming = False,
     rtpSequence = 0,
     rtpTimestamp = 0,
     rtpSSRC = 0x43215678,
     lastRTSPActivity = 0,
     rtspParseBuffer = (\<lambda>i. NUL),
     rtspParseBufferPos = 0,
     i2s_16bit_buffer = [],
     audioPacketsSent = 0,
     lastStatsReset = 0,
     rtspServerEnabled = True,
     currentSampleRate = 48000,
     currentGainFactor = 1.2,
     currentBufferSize = 1024,
     i2sShiftBits = 12,
     lastPeakAbs16 = 0,
     audioClipCount = 0,
     audioClippedLastBlock = False,
     peakHoldAbs16 = 0,
     peakHoldUntilMs = 0,
     highpassEnabled = True,
     highpassCutoffHz = 500,
     hpf = \<lparr>b0 = 1.0, b1 = 0.0, b2 = 0.0, a1 = 0.0, a2 = 0.0,
            x1 = 0.0, x2 = 0.0, y1 = 0.0, y2 = 0.0\<rparr>,
     hpfConfigSampleRate = 0,
     hpfConfigCutoff = 0,
     audioPrefs = Map.empty,
     maxPacketRate = 0,
     minPacketRate = 0xFFFFFFFF,
     autoRecoveryEnabled = True,
     autoThresholdEnabled = True,
     bootTime = 0,
     maxTemperature = 0.0,
     lastTemperatureC = 0.0,
     lastTemperatureValid = False,
     overheatProtectionEnabled = True,
     overheatShutdownC = 80,
     overheatLockoutActive = False,
     overheatTripTemp = 0.0,
     overheatTriggeredAt = 0,
     overheatLastReason = [],
     overheatLastTimestamp = [],
     overheatSensorFault = False,
     overheatLatched = False,
     lastTempWarn = 0,
     scheduledResetEnabled = False,
     resetIntervalHours = 24,
     minAcceptableRate = 50,
     performanceCheckInterval = 15,
     cpuFrequencyMhz = 160,
     cpuFrequencyApplied = 160,
     wifiTxPowerDbm = 19.5,
     currentWifiPowerLevel = WIFI_POWER_19_5dBm,
     radioTxPowerCalls = [],
     lastRtspPlayMs = 0,
     rtspPlayCount = 0,
     serialLog = [],
     webLog = [],
     webResponse = None\<rparr>"

subsection \<open>ConfigStore: loading the settings and the factory reset\<close>










subsection \<open>Start-up\<close>






subsection \<open>Runs of the thermal guard\<close>








text \<open>
  The state the thermal latch forces: the latch is set in memory and in the
  preferences store, and the RTSP server is disabled and not listening.
\<close>

definition thermal_locked :: "device \<Rightarrow> bool" where
  "thermal_locked s =
    (overheatLatched s \<and> audioPrefs s ''ohLatched'' = Some (PBool True)
     \<and> \<not> rtspServerEnabled s \<and> \<not> rtspServerListening s)"

text \<open>A device that serves a stream: the server listens, a client is connected and playing.\<close>

definition streaming_state :: device where
  "streaming_state =
    boot_state\<lparr>rtspServerListening := True,
               rtspClient := \<lparr>connected = True, rx = [], replies = [], accept = [], sent = []\<rparr>,
               isStreaming := True\<rparr>"



text \<open>A connected client whose connection takes the byte counts of \<open>script\<close>, write by write.\<close>

definition rtp_client :: "nat list \<Rightarrow> WiFiClient" where
  "rtp_client script = \<lparr>connected = True, rx = [], replies = [], accept = script, sent = []\<rparr>"

text \<open>
  A streaming device with the filter off, gain 2 and no shift: a raw sample \<open>r\<close> is
  amplified to \<open>2 * r\<close>.
\<close>

definition loud_state :: device where
  "loud_state =
    streaming_state\<lparr>highpassEnabled := False, currentGainFactor := 2, i2sShiftBits := 0\<rparr>"

text \<open>
  A configuration the setters accept in which the cutoff is clamped: 8000 Hz sample
  rate (clamp at 3600 Hz), 5000 Hz cutoff, filter enabled.
\<close>

definition clamped_state :: device where
  "clamped_state = boot_state\<lparr>currentSampleRate := 8000, highpassCutoffHz := 5000\<rparr>"

text \<open>
  The adaptive threshold as an invariant: in auto mode \<^verbatim>\<open>minAcceptableRate\<close> is the value
  \<^verbatim>\<open>computeRecommendedMinRate\<close> gives for the current sample rate and buffer size.
\<close>

definition threshold_inv :: "device \<Rightarrow> bool" where
  "threshold_inv s = (if autoThresholdEnabled s
                      then minAcceptableRate s = computeRecommendedMinRate s else True)"

text \<open>
  The globals after \<^verbatim>\<open>loadAudioSettings\<close> on a first boot, as far as the threshold goes:
  auto mode, and the threshold recomputed. And a request \<^verbatim>\<open>/api/set?key=min_rate&value=100\<close>.
\<close>

definition loaded_state :: device where
  "loaded_state = boot_state\<lparr>minAcceptableRate := computeRecommendedMinRate boot_state\<rparr>"

definition min_rate_request :: http_request where
  "min_rate_request =
    \<lparr>arg_key = ''min_rate'', hasArg_value = True, arg_value = ''100'',
     arg_value_toInt = 100, arg_value_toFloat = 100\<rparr>"

section \<open>Verification\<close>

subsection \<open>ThermalGuard: the persisted latch\<close>

lemma locked_simplePrintln [simp]: "thermal_locked (simplePrintln m s) = thermal_locked s"
  by (simp add: thermal_locked_def simplePrintln_def webui_pushLog_def)

lemma locked_webui_pushLog [simp]: "thermal_locked (webui_pushLog m s) = thermal_locked s"
  by (simp add: thermal_locked_def webui_pushLog_def)

lemma locked_apiSendJSON [simp]: "thermal_locked (apiSendJSON j s) = thermal_locked s"
  by (simp add: thermal_locked_def apiSendJSON_def)

lemma locked_persist:
  "overheatLatched s \<Longrightarrow> \<not> rtspServerEnabled s \<Longrightarrow> \<not> rtspServerListening s
   \<Longrightarrow> thermal_locked (persistOverheatNote s)"
  by (simp add: thermal_locked_def persistOverheatNote_def)

lemma locked_sensor_unavailable:
  "thermal_locked s \<Longrightarrow> thermal_locked (sensor_unavailable s)"
  by (simp add: sensor_unavailable_def Let_def thermal_locked_def persistOverheatNote_def
      simplePrintln_def webui_pushLog_def)

lemma locked_sensor_restored:
  "thermal_locked s \<Longrightarrow> thermal_locked (sensor_restored now s)"
  by (simp add: sensor_restored_def thermal_locked_def persistOverheatNote_def
      simplePrintln_def webui_pushLog_def)

lemma trip_locked: "thermal_locked (thermal_trip now temp s)"
  by (simp add: thermal_trip_def recordOverheatTrip_def Let_def thermal_locked_def
      persistOverheatNote_def simplePrintln_def webui_pushLog_def)

lemma locked_thermal_protect:
  "thermal_locked s \<Longrightarrow> thermal_locked (thermal_protect now temp s)"
  by (simp add: thermal_protect_def Let_def trip_locked) (simp add: thermal_locked_def)

lemma locked_high_temp_warning:
  "thermal_locked s \<Longrightarrow> thermal_locked (high_temp_warning now temp s)"
  by (simp add: high_temp_warning_def Let_def) (simp add: thermal_locked_def simplePrintln_def webui_pushLog_def)

lemma checkTemperature_keeps_locked:
  assumes "thermal_locked s"
  shows "thermal_locked (checkTemperature now rd s)"
proof (cases "isTemperatureValid rd")
  case False
  with assms show ?thesis by (simp add: checkTemperature_def locked_sensor_unavailable)
next
  case True
  let ?t = "reading_value rd"
  let ?s1 = "s\<lparr>lastTemperatureC := ?t, lastTemperatureValid := True\<rparr>"
  let ?s2 = "sensor_restored now ?s1"
  let ?s3 = "if ?t > maxTemperature ?s2 then ?s2\<lparr>maxTemperature := ?t\<rparr> else ?s2"
  from assms have "thermal_locked ?s1" by (simp add: thermal_locked_def)
  then have "thermal_locked ?s2" by (rule locked_sensor_restored)
  then have "thermal_locked ?s3" by (simp add: thermal_locked_def)
  then have "thermal_locked (high_temp_warning now ?t (thermal_protect now ?t ?s3))"
    by (intro locked_high_temp_warning locked_thermal_protect)
  with True show ?thesis by (simp add: checkTemperature_def Let_def)
qed



text \<open>
  The functions below touch neither the latch, nor its entry in the preferences store,
  nor the state of the server.
\<close>

lemma thermal_locked_cong:
  "overheatLatched s' = overheatLatched s
   \<Longrightarrow> audioPrefs s' ''ohLatched'' = audioPrefs s ''ohLatched''
   \<Longrightarrow> rtspServerEnabled s' = rtspServerEnabled s
   \<Longrightarrow> rtspServerListening s' = rtspServerListening s
   \<Longrightarrow> thermal_locked s' = thermal_locked s"
  by (simp add: thermal_locked_def)

lemma applyWifiTxPower_serving:
  "overheatLatched (applyWifiTxPower b s) = overheatLatched s"
  "audioPrefs (applyWifiTxPower b s) = audioPrefs s"
  "rtspServerEnabled (applyWifiTxPower b s) = rtspServerEnabled s"
  "rtspServerListening (applyWifiTxPower b s) = rtspServerListening s"
  by (simp_all add: applyWifiTxPower_def Let_def simplePrintln_def webui_pushLog_def)

lemma updateHighpassCoeffs_serving:
  "overheatLatched (updateHighpassCoeffs s) = overheatLatched s"
  "audioPrefs (updateHighpassCoeffs s) = audioPrefs s"
  "rtspServerEnabled (updateHighpassCoeffs s) = rtspServerEnabled s"
  "rtspServerListening (updateHighpassCoeffs s) = rtspServerListening s"
  by (simp_all add: updateHighpassCoeffs_def Let_def)

lemma setup_i2s_driver_serving:
  "overheatLatched (setup_i2s_driver s) = overheatLatched s"
  "audioPrefs (setup_i2s_driver s) = audioPrefs s"
  "rtspServerEnabled (setup_i2s_driver s) = rtspServerEnabled s"
  "rtspServerListening (setup_i2s_driver s) = rtspServerListening s"
  by (simp_all add: setup_i2s_driver_def Let_def simplePrintln_def webui_pushLog_def)

lemma simplePrintln_serving:
  "overheatLatched (simplePrintln m s) = overheatLatched s"
  "audioPrefs (simplePrintln m s) = audioPrefs s"
  "rtspServerEnabled (simplePrintln m s) = rtspServerEnabled s"
  "rtspServerListening (simplePrintln m s) = rtspServerListening s"
  by (simp_all add: simplePrintln_def webui_pushLog_def)

lemma locked_applyWifiTxPower [simp]:
  "thermal_locked (applyWifiTxPower b s) = thermal_locked s"
  by (rule thermal_locked_cong) (simp_all add: applyWifiTxPower_serving)

lemma locked_updateHighpassCoeffs [simp]:
  "thermal_locked (updateHighpassCoeffs s) = thermal_locked s"
  by (rule thermal_locked_cong) (simp_all add: updateHighpassCoeffs_serving)

lemma locked_setup_i2s_driver [simp]:
  "thermal_locked (setup_i2s_driver s) = thermal_locked s"
  by (rule thermal_locked_cong) (simp_all add: setup_i2s_driver_serving)

text \<open>Saving the settings writes the latch of the globals to the preferences store.\<close>

lemma saveAudioSettings_serving:
  "overheatLatched (saveAudioSettings s) = overheatLatched s"
  "audioPrefs (saveAudioSettings s) ''ohLatched'' = Some (PBool (overheatLatched s))"
  "rtspServerEnabled (saveAudioSettings s) = rtspServerEnabled s"
  "rtspServerListening (saveAudioSettings s) = rtspServerListening s"
  by (simp_all add: saveAudioSettings_def Let_def simplePrintln_def webui_pushLog_def)

lemma locked_saveAudioSettings [simp]:
  "thermal_locked (saveAudioSettings s)
     = (overheatLatched s \<and> \<not> rtspServerEnabled s \<and> \<not> rtspServerListening s)"
  by (simp add: thermal_locked_def saveAudioSettings_serving)

lemma locked_restartI2S [simp]:
  "pred_outcome thermal_locked (restartI2S heapOk s) = thermal_locked s"
proof -
  have "thermal_locked ((simplePrintln [Str ''Restarting I2S with new parameters...''] s)
          \<lparr>isStreaming := False\<rparr>) = thermal_locked s"
    by (rule thermal_locked_cong) (simp_all add: simplePrintln_serving)
  moreover have "\<And>x b n m. thermal_locked (x\<lparr>i2s_16bit_buffer := b\<rparr>) = thermal_locked x"
    "\<And>x n m. thermal_locked (x\<lparr>maxPacketRate := n, minPacketRate := m\<rparr>) = thermal_locked x"
    by (simp_all add: thermal_locked_def)
  ultimately show ?thesis
    by (simp add: restartI2S_def Let_def)
qed
















lemma warning_frame:
  "overheatLatched (high_temp_warning now temp s) = overheatLatched s"
  "overheatLockoutActive (high_temp_warning now temp s) = overheatLockoutActive s"
  "overheatProtectionEnabled (high_temp_warning now temp s) = overheatProtectionEnabled s"
  "overheatShutdownC (high_temp_warning now temp s) = overheatShutdownC s"
  "overheatTripTemp (high_temp_warning now temp s) = overheatTripTemp s"
  "overheatTriggeredAt (high_temp_warning now temp s) = overheatTriggeredAt s"
  "overheatLastReason (high_temp_warning now temp s) = overheatLastReason s"
  "audioPrefs (high_temp_warning now temp s) = audioPrefs s"
  "isStreaming (high_temp_warning now temp s) = isStreaming s"
  "rtspClient (high_temp_warning now temp s) = rtspClient s"
  "rtspServerEnabled (high_temp_warning now temp s) = rtspServerEnabled s"
  "rtspServerListening (high_temp_warning now temp s) = rtspServerListening s"
  by (simp_all add: high_temp_warning_def Let_def simplePrintln_def webui_pushLog_def)

lemma restored_frame:
  "overheatSensorFault (sensor_restored now s) = False"
  "overheatLockoutActive (sensor_restored now s) = overheatLockoutActive s"
  "overheatProtectionEnabled (sensor_restored now s) = overheatProtectionEnabled s"
  "overheatShutdownC (sensor_restored now s) = overheatShutdownC s"
  by (simp_all add: sensor_restored_def persistOverheatNote_def simplePrintln_def
      webui_pushLog_def)


text \<open>On a valid reading the protection runs on a state whose sensor fault is cleared.\<close>

lemma checkTemperature_valid:
  assumes "isTemperatureValid (Reading t)"
  shows "\<exists>s3. checkTemperature now (Reading t) s
              = high_temp_warning now t (thermal_protect now t s3)
            \<and> \<not> overheatSensorFault s3
            \<and> overheatLockoutActive s3 = overheatLockoutActive s
            \<and> overheatProtectionEnabled s3 = overheatProtectionEnabled s
            \<and> overheatShutdownC s3 = overheatShutdownC s"
proof -
  let ?s1 = "s\<lparr>lastTemperatureC := t, lastTemperatureValid := True\<rparr>"
  let ?s2 = "sensor_restored now ?s1"
  let ?s3 = "if t > maxTemperature ?s2 then ?s2\<lparr>maxTemperature := t\<rparr> else ?s2"
  have "checkTemperature now (Reading t) s = high_temp_warning now t (thermal_protect now t ?s3)"
    using assms by (simp add: checkTemperature_def Let_def del: isTemperatureValid.simps)
  moreover have "\<not> overheatSensorFault ?s3" by (simp add: restored_frame)
  moreover have "overheatLockoutActive ?s3 = overheatLockoutActive s"
    "overheatProtectionEnabled ?s3 = overheatProtectionEnabled s"
    "overheatShutdownC ?s3 = overheatShutdownC s"
    by (simp_all add: restored_frame)
  ultimately show ?thesis by blast
qed








text \<open>
  Cooling by one step of 5 degrees below the limit clears the transient lockout and
  nothing else: the latch stays.
\<close>

lemma cooldown_clears_only_the_transient_lockout:
  assumes "thermal_locked s" and "overheatLockoutActive s" and "overheatProtectionEnabled s"
    and "isTemperatureValid (Reading t)"
    and "t \<le> overheatShutdownC s - real OVERHEAT_LIMIT_STEP_C"
  shows "\<not> overheatLockoutActive (checkTemperature now (Reading t) s)
       \<and> thermal_locked (checkTemperature now (Reading t) s)"
proof -
  from checkTemperature_valid [OF assms(4), of now s] obtain s3 where
    s3: "checkTemperature now (Reading t) s = high_temp_warning now t (thermal_protect now t s3)"
      "\<not> overheatSensorFault s3" "overheatLockoutActive s3 = overheatLockoutActive s"
      "overheatProtectionEnabled s3 = overheatProtectionEnabled s"
      "overheatShutdownC s3 = overheatShutdownC s"
    by blast
  with assms have "\<not> overheatLockoutActive (thermal_protect now t s3)"
    by (simp add: thermal_protect_def OVERHEAT_LIMIT_STEP_C_def)
  with s3 checkTemperature_keeps_locked [OF assms(1), of now "Reading t"]
  show ?thesis by (simp add: warning_frame)
qed

subsection \<open>PowerManager: snapping the transmit power\<close>

lemma snap_loop_first_min:
  assumes "i < length pre" "best = pre ! i" "bestd = \<bar>v - pre ! i\<bar>"
    and "\<forall>j<length pre. \<bar>v - pre ! i\<bar> \<le> \<bar>v - pre ! j\<bar>"
    and "\<forall>j<i. \<bar>v - pre ! i\<bar> < \<bar>v - pre ! j\<bar>"
  shows "\<exists>k<length (pre @ rest).
           fst (snap_loop v rest (best, bestd)) = (pre @ rest) ! k
         \<and> (\<forall>j<length (pre @ rest). \<bar>v - (pre @ rest) ! k\<bar> \<le> \<bar>v - (pre @ rest) ! j\<bar>)
         \<and> (\<forall>j<k. \<bar>v - (pre @ rest) ! k\<bar> < \<bar>v - (pre @ rest) ! j\<bar>)"
  using assms
proof (induction rest arbitrary: pre i best bestd)
  case Nil
  then show ?case by auto
next
  case (Cons x rest)
  let ?pre = "pre @ [x]"
  show ?case
  proof (cases "\<bar>v - x\<bar> < bestd")
    case True
    have a: "length pre < length ?pre" by simp
    have b: "x = ?pre ! length pre" by simp
    have c: "\<bar>v - x\<bar> = \<bar>v - ?pre ! length pre\<bar>" by simp
    have d: "\<forall>j<length ?pre. \<bar>v - ?pre ! length pre\<bar> \<le> \<bar>v - ?pre ! j\<bar>"
    proof (intro allI impI)
      fix j assume "j < length ?pre"
      then consider "j < length pre" | "j = length pre" by fastforce
      then show "\<bar>v - ?pre ! length pre\<bar> \<le> \<bar>v - ?pre ! j\<bar>"
      proof cases
        case 1
        with Cons.prems have "bestd \<le> \<bar>v - pre ! j\<bar>" by simp
        with True 1 show ?thesis by (simp add: nth_append)
      next
        case 2
        then show ?thesis by simp
      qed
    qed
    have e: "\<forall>j<length pre. \<bar>v - ?pre ! length pre\<bar> < \<bar>v - ?pre ! j\<bar>"
    proof (intro allI impI)
      fix j assume j: "j < length pre"
      with Cons.prems have "bestd \<le> \<bar>v - pre ! j\<bar>" by simp
      with True j show "\<bar>v - ?pre ! length pre\<bar> < \<bar>v - ?pre ! j\<bar>"
        by (simp add: nth_append)
    qed
    from Cons.IH [OF a b c d e] True show ?thesis by simp
  next
    case False
    have a: "i < length ?pre" using Cons.prems by simp
    have b: "best = ?pre ! i" using Cons.prems by (simp add: nth_append)
    have c: "bestd = \<bar>v - ?pre ! i\<bar>" using Cons.prems by (simp add: nth_append)
    have d: "\<forall>j<length ?pre. \<bar>v - ?pre ! i\<bar> \<le> \<bar>v - ?pre ! j\<bar>"
    proof (intro allI impI)
      fix j assume "j < length ?pre"
      then consider "j < length pre" | "j = length pre" by fastforce
      then show "\<bar>v - ?pre ! i\<bar> \<le> \<bar>v - ?pre ! j\<bar>"
      proof cases
        case 1
        with Cons.prems show ?thesis by (simp add: nth_append)
      next
        case 2
        with Cons.prems False show ?thesis by (simp add: nth_append)
      qed
    qed
    have e: "\<forall>j<i. \<bar>v - ?pre ! i\<bar> < \<bar>v - ?pre ! j\<bar>"
      using Cons.prems by (simp add: nth_append)
    from Cons.IH [OF a b c d e] False show ?thesis by simp
  qed
qed

lemma snapWifiTxDbm_first_nearest:
  "\<exists>k<length steps. snapWifiTxDbm v = steps ! k
     \<and> (\<forall>j<length steps. \<bar>v - steps ! k\<bar> \<le> \<bar>v - steps ! j\<bar>)
     \<and> (\<forall>j<k. \<bar>v - steps ! k\<bar> < \<bar>v - steps ! j\<bar>)"
proof -
  have ne: "steps = hd steps # tl steps" by (simp add: steps_def)
  have "\<exists>k<length ([hd steps] @ tl steps).
           fst (snap_loop v (tl steps) (hd steps, \<bar>v - hd steps\<bar>)) = ([hd steps] @ tl steps) ! k
         \<and> (\<forall>j<length ([hd steps] @ tl steps).
               \<bar>v - ([hd steps] @ tl steps) ! k\<bar> \<le> \<bar>v - ([hd steps] @ tl steps) ! j\<bar>)
         \<and> (\<forall>j<k. \<bar>v - ([hd steps] @ tl steps) ! k\<bar> < \<bar>v - ([hd steps] @ tl steps) ! j\<bar>)"
    by (rule snap_loop_first_min [where i = 0]) simp_all
  with ne show ?thesis by (simp add: snapWifiTxDbm_def)
qed

text \<open>
  \<^verbatim>\<open>pickWifiPowerLevel\<close> takes the lowest level that is not below its argument; on an
  entry of the table that is the level of the entry itself.
\<close>

lemma pick_of_step:
  "x \<in> set steps \<Longrightarrow> wifiPowerLevelToDbm (pickWifiPowerLevel x) = x"
  by (auto simp: steps_def pickWifiPowerLevel_def)

lemma applyWifiTxPower_level:
  "currentWifiPowerLevel (applyWifiTxPower doLog s) = pickWifiPowerLevel (wifiTxPowerDbm s)"
  by (simp add: applyWifiTxPower_def Let_def simplePrintln_def webui_pushLog_def)

lemma applyWifiTxPower_radio:
  "radioTxPowerCalls (applyWifiTxPower doLog s) =
     radioTxPowerCalls s @
       (if pickWifiPowerLevel (wifiTxPowerDbm s) \<noteq> currentWifiPowerLevel s
        then [pickWifiPowerLevel (wifiTxPowerDbm s)] else [])"
  by (simp add: applyWifiTxPower_def Let_def simplePrintln_def webui_pushLog_def)

text \<open>
  Claim C3. A transmit power \<open>v\<close> requested through the setter is stored snapped by
  \<^verbatim>\<open>snapWifiTxDbm\<close> and applied by \<^verbatim>\<open>applyWifiTxPower\<close>. For every \<open>v\<close> the level
  applied is that of an entry of the ascending table \<open>steps\<close> which is nearest to \<open>v\<close>
  by absolute difference, and the first such entry in table order; the radio is
  reconfigured (one call of \<^verbatim>\<open>WiFi.setTxPower\<close>, with the new level) exactly when that
  level differs from the level applied before.
\<close>

theorem wifi_tx_power_nearest_level_applied_on_change:
  "sorted steps
   \<and> (let s' = applyWifiTxPower doLog (s\<lparr>wifiTxPowerDbm := snapWifiTxDbm v\<rparr>)
      in (\<exists>k<length steps.
            wifiPowerLevelToDbm (currentWifiPowerLevel s') = steps ! k
          \<and> (\<forall>j<length steps. \<bar>v - steps ! k\<bar> \<le> \<bar>v - steps ! j\<bar>)
          \<and> (\<forall>j<k. \<bar>v - steps ! k\<bar> < \<bar>v - steps ! j\<bar>))
       \<and> radioTxPowerCalls s' =
           radioTxPowerCalls s @
             (if currentWifiPowerLevel s' \<noteq> currentWifiPowerLevel s
              then [currentWifiPowerLevel s'] else []))"
proof -
  from snapWifiTxDbm_first_nearest [of v] obtain k where
    k: "k < length steps" "snapWifiTxDbm v = steps ! k"
      "\<forall>j<length steps. \<bar>v - steps ! k\<bar> \<le> \<bar>v - steps ! j\<bar>"
      "\<forall>j<k. \<bar>v - steps ! k\<bar> < \<bar>v - steps ! j\<bar>"
    by blast
  then have "snapWifiTxDbm v \<in> set steps" by simp
  then have "wifiPowerLevelToDbm (pickWifiPowerLevel (snapWifiTxDbm v)) = steps ! k"
    using k(2) by (simp add: pick_of_step)
  with k have "\<exists>k<length steps.
       wifiPowerLevelToDbm (pickWifiPowerLevel (snapWifiTxDbm v)) = steps ! k
     \<and> (\<forall>j<length steps. \<bar>v - steps ! k\<bar> \<le> \<bar>v - steps ! j\<bar>)
     \<and> (\<forall>j<k. \<bar>v - steps ! k\<bar> < \<bar>v - steps ! j\<bar>)"
    by blast
  moreover have "sorted steps" by (simp add: steps_def)
  ultimately show ?thesis
    by (simp add: Let_def applyWifiTxPower_level applyWifiTxPower_radio)
qed

theorem wifi_tx_power_witness:
  "(let s' = applyWifiTxPower True (boot_state\<lparr>wifiTxPowerDbm := snapWifiTxDbm 3.5\<rparr>)
    in (\<exists>k<length steps.
          wifiPowerLevelToDbm (currentWifiPowerLevel s') = steps ! k
        \<and> (\<forall>j<length steps. \<bar>3.5 - steps ! k\<bar> \<le> \<bar>3.5 - steps ! j\<bar>)
        \<and> (\<forall>j<k. \<bar>3.5 - steps ! k\<bar> < \<bar>3.5 - steps ! j\<bar>))
     \<and> radioTxPowerCalls s' =
         radioTxPowerCalls boot_state @
           (if currentWifiPowerLevel s' \<noteq> currentWifiPowerLevel boot_state
            then [currentWifiPowerLevel s'] else [])
     \<and> snapWifiTxDbm 3.5 = 2
     \<and> currentWifiPowerLevel s' = WIFI_POWER_2dBm
     \<and> radioTxPowerCalls s' = [WIFI_POWER_2dBm]
     \<and> radioTxPowerCalls (applyWifiTxPower True (s'\<lparr>wifiTxPowerDbm := snapWifiTxDbm 3.5\<rparr>))
         = [WIFI_POWER_2dBm])"
proof -
  have snap: "snapWifiTxDbm 3.5 = 2" by (simp add: snapWifiTxDbm_def steps_def)
  have pick: "pickWifiPowerLevel 2 = WIFI_POWER_2dBm" by (simp add: pickWifiPowerLevel_def)
  have boot: "currentWifiPowerLevel boot_state = WIFI_POWER_19_5dBm"
    "radioTxPowerCalls boot_state = []"
    by (simp_all add: boot_state_def)
  from wifi_tx_power_nearest_level_applied_on_change
    [where doLog = True and s = boot_state and v = "3.5"] snap pick boot
  show ?thesis
    by (simp add: Let_def applyWifiTxPower_level applyWifiTxPower_radio)
qed

text \<open>The setter \<^verbatim>\<open>wifi_tx\<close> of \<^verbatim>\<open>httpSet\<close> accepts requests from -1 to 19.5 dBm only.\<close>

lemma httpSet_wifi_tx:
  assumes "arg_key req = ''wifi_tx''" and "hasArg_value req"
    and "-1 \<le> arg_value_toFloat req" and "arg_value_toFloat req \<le> 19.5"
  shows "httpSet heapOk req s =
           Done (apiSendJSON ''{\"ok\":true}''
             (saveAudioSettings
               (applyWifiTxPower True
                 ((if web_arg_value req \<noteq> []
                   then webui_pushLog
                          [Str ''UI set: '', Str ''wifi_tx'', Str ''='', Str (web_arg_value req)] s
                   else s)\<lparr>wifiTxPowerDbm := snapWifiTxDbm (arg_value_toFloat req)\<rparr>))))"
  using assms
  by (simp add: httpSet_def httpSet_setters_def Let_def after_save_def)


subsection \<open>StreamPacketizer: writes, counters and the sample buffer\<close>


lemma sendRTPPacket_segments:
  assumes "connected client"
  shows "sendRTPPacket client audioData numSamples s =
    (case write_segments client (packet_segments audioData numSamples s) of
       (ok, c') \<Rightarrow>
         (c', swap_samples audioData numSamples,
          if ok then s\<lparr>rtpSequence := rtpSequence s + 1,
                       rtpTimestamp := rtpTimestamp s + word_of_int numSamples,
                       audioPacketsSent := audioPacketsSent s + 1\<rparr>
          else s\<lparr>isStreaming := False\<rparr>))"
  using assms
  by (simp add: sendRTPPacket_def packet_segments_def Let_def split: prod.splits)

lemma writeAll_Nil: "writeAll client [] = (True, client)"
  by (simp add: writeAll.simps [of client "[]"])

lemma writeAll_step:
  "data \<noteq> [] \<Longrightarrow>
     writeAll client data =
       (case client_write client data of
          (w, client') \<Rightarrow> if w = 0 then (False, client') else writeAll client' (drop w data))"
  by (simp add: writeAll.simps [of client data])

text \<open>What \<^verbatim>\<open>writeAll\<close> sends: a prefix of the data, all of it exactly when it succeeds.\<close>

lemma writeAll_sent:
  "writeAll client data = (ok, c') \<Longrightarrow>
     \<exists>k\<le>length data. sent c' = sent client @ take k data
           \<and> (ok \<longleftrightarrow> k = length data) \<and> connected c' = connected client"
proof (induction client data arbitrary: ok c' rule: writeAll.induct)
  case (1 client data)
  show ?case
  proof (cases "data = []")
    case True
    with "1.prems" show ?thesis by (simp add: writeAll_Nil)
  next
    case False
    obtain w c1 where cw: "client_write client data = (w, c1)" by (cases "client_write client data")
    show ?thesis
    proof (cases "w = 0")
      case True
      with False cw "1.prems" have "ok = False" "c' = c1"
        by (simp_all add: writeAll_step)
      moreover from cw True have "sent c1 = sent client" "connected c1 = connected client"
        by (auto simp: client_write_def Let_def split: list.splits)
      ultimately have "sent c' = sent client @ take 0 data \<and> (ok \<longleftrightarrow> 0 = length data)
          \<and> connected c' = connected client"
        using False by simp
      then show ?thesis by blast
    next
      case w: False
      from cw w have c1: "sent c1 = sent client @ take w data" "w \<le> length data"
        "connected c1 = connected client"
        by (auto simp: client_write_def Let_def split: list.splits)
      from False cw w "1.prems" have rec: "writeAll c1 (drop w data) = (ok, c')"
        by (simp add: writeAll_step)
      from "1.IH" [OF False cw [symmetric] w rec] obtain k where
        k: "k \<le> length (drop w data)" "sent c' = sent c1 @ take k (drop w data)"
          "ok \<longleftrightarrow> k = length (drop w data)" "connected c' = connected c1"
        by blast
      have "w + k \<le> length data" using k(1) c1(2) by simp
      moreover have "sent c' = sent client @ take (w + k) data"
        using k(2) c1(1) by (simp add: take_add)
      moreover have "ok \<longleftrightarrow> w + k = length data" using k(3) c1(2) by auto
      ultimately show ?thesis using k(4) c1(3) by blast
    qed
  qed
qed

lemma write_segments_sent:
  "write_segments client segs = (ok, c') \<Longrightarrow>
     \<exists>k\<le>length (concat segs). sent c' = sent client @ take k (concat segs)
           \<and> (ok \<longleftrightarrow> k = length (concat segs)) \<and> connected c' = connected client"
proof (induction segs arbitrary: client ok c')
  case Nil
  then show ?case by simp
next
  case (Cons seg segs)
  obtain ok1 c1 where w1: "writeAll client seg = (ok1, c1)" by (cases "writeAll client seg")
  from writeAll_sent [OF w1] obtain k1 where
    k1: "k1 \<le> length seg" "sent c1 = sent client @ take k1 seg" "ok1 \<longleftrightarrow> k1 = length seg"
      "connected c1 = connected client"
    by blast
  show ?case
  proof (cases ok1)
    case False
    with w1 Cons.prems have "ok = False" "c' = c1" by simp_all
    with k1 False have "k1 \<le> length (concat (seg # segs))
        \<and> sent c' = sent client @ take k1 (concat (seg # segs))
        \<and> (ok \<longleftrightarrow> k1 = length (concat (seg # segs))) \<and> connected c' = connected client"
      by auto
    then show ?thesis by blast
  next
    case True
    with w1 Cons.prems have rec: "write_segments c1 segs = (ok, c')" by simp
    from Cons.IH [OF rec] obtain k where
      k: "k \<le> length (concat segs)" "sent c' = sent c1 @ take k (concat segs)"
        "ok \<longleftrightarrow> k = length (concat segs)" "connected c' = connected c1"
      by blast
    from True k1 have full: "k1 = length seg" by simp
    have "length seg + k \<le> length (concat (seg # segs))" using k(1) by simp
    moreover have "sent c' = sent client @ take (length seg + k) (concat (seg # segs))"
      using k(2) k1(2) full by simp
    moreover have "ok \<longleftrightarrow> length seg + k = length (concat (seg # segs))" using k(3) by simp
    ultimately show ?thesis using k(4) k1(4) by blast
  qed
qed

lemma bswap16_involution: "bswap16 (bswap16 w) = w"
  unfolding bswap16_def
  by (rule bit_word_eqI) (auto simp add: bit_simps)

lemma sample_bytes_bswap16: "sample_bytes (bswap16 w) = rev (sample_bytes w)"
  unfolding bswap16_def sample_bytes_def
  by (simp, intro conjI; rule bit_word_eqI) (auto simp add: bit_simps)



text \<open>
  Claim C5. A packet is sent to a connected client as three segments, each through
  \<^verbatim>\<open>writeAll\<close>. If the write of any of them falls short (\<^verbatim>\<open>writeAll\<close> fails on it, the
  ones before having succeeded), the only change to the globals is that
  \<^verbatim>\<open>isStreaming\<close> becomes false: sequence number, timestamp and count of packets sent
  keep their values. The function has no path to \<^verbatim>\<open>ESP.restart()\<close>: it returns a state.
\<close>

theorem rtp_short_write_stops_streaming_keeps_counters:
  assumes "connected client"
    and "\<not> fst (write_segments client (packet_segments audioData numSamples s))"
  shows "case sendRTPPacket client audioData numSamples s of
           (c', buf', s') \<Rightarrow>
             s' = s\<lparr>isStreaming := False\<rparr>
           \<and> \<not> isStreaming s'
           \<and> rtpSequence s' = rtpSequence s
           \<and> rtpTimestamp s' = rtpTimestamp s
           \<and> audioPacketsSent s' = audioPacketsSent s"
  using assms
  by (auto simp add: sendRTPPacket_segments split: prod.splits)

lemmas rtp_eval = rtp_client_def packet_segments_def interleaved_header_def rtp_header_def
  payload_bytes_def swap_samples_def sample_bytes_def bswap16_def
  writeAll_Nil writeAll_step client_write_def Let_def

theorem rtp_short_write_witness:
  "connected (rtp_client [4, 5])
   \<and> \<not> fst (write_segments (rtp_client [4, 5])
             (packet_segments [0x0102, 0x0304] 2 (streaming_state\<lparr>rtpSequence := 7\<rparr>)))
   \<and> (case sendRTPPacket (rtp_client [4, 5]) [0x0102, 0x0304] 2
             (streaming_state\<lparr>rtpSequence := 7\<rparr>) of
         (c', buf', s') \<Rightarrow>
           s' = streaming_state\<lparr>rtpSequence := 7, isStreaming := False\<rparr>
         \<and> \<not> isStreaming s'
         \<and> rtpSequence s' = 7
         \<and> rtpTimestamp s' = rtpTimestamp streaming_state
         \<and> audioPacketsSent s' = audioPacketsSent streaming_state)"
proof -
  have a: "connected (rtp_client [4, 5])" by (simp add: rtp_client_def)
  have b: "\<not> fst (write_segments (rtp_client [4, 5])
             (packet_segments [0x0102, 0x0304] 2 (streaming_state\<lparr>rtpSequence := 7\<rparr>)))"
    by (simp add: rtp_eval)
  from rtp_short_write_stops_streaming_keeps_counters [OF a b] a b
  show ?thesis by (simp split: prod.splits)
qed


text \<open>
  Claim C6. When all three segments of a packet are written, the 16-bit sequence
  number grows by 1 modulo \<open>2 ^ 16\<close> and the 32-bit timestamp by the number of samples
  of the packet modulo \<open>2 ^ 32\<close>. A request that starts with \<^verbatim>\<open>PLAY\<close> sets both to 0
  (and starts streaming).
\<close>

theorem rtp_counters_advance_and_reset_on_play:
  "(connected client \<and> fst (write_segments client (packet_segments audioData numSamples s))
     \<longrightarrow> (case sendRTPPacket client audioData numSamples s of
            (c', buf', s') \<Rightarrow>
              rtpSequence s' = rtpSequence s + 1
            \<and> unat (rtpSequence s') = (unat (rtpSequence s) + 1) mod 2 ^ 16
            \<and> rtpTimestamp s' = rtpTimestamp s + word_of_int numSamples
            \<and> (0 \<le> numSamples \<longrightarrow>
                 unat (rtpTimestamp s') = (unat (rtpTimestamp s) + nat numSamples) mod 2 ^ 32)))
   \<and> (startsWith request ''PLAY''
     \<longrightarrow> (case handleRTSPCommand client request now rnd s of
            (c', s') \<Rightarrow> rtpSequence s' = 0 \<and> rtpTimestamp s' = 0 \<and> isStreaming s'))"
proof (intro conjI impI)
  assume a: "connected client
      \<and> fst (write_segments client (packet_segments audioData numSamples s))"
  have seq: "unat (rtpSequence s + 1) = (unat (rtpSequence s) + 1) mod 2 ^ 16"
    by (simp add: unat_word_ariths)
  have ts: "0 \<le> numSamples \<Longrightarrow>
      unat (rtpTimestamp s + word_of_int numSamples)
        = (unat (rtpTimestamp s) + nat numSamples) mod 2 ^ 32"
  proof -
    assume n: "0 \<le> numSamples"
    then have "(word_of_int numSamples :: 32 word) = word_of_nat (nat numSamples)" by simp
    then have "unat (word_of_int numSamples :: 32 word) = nat numSamples mod 2 ^ 32"
      by (simp add: unat_of_nat)
    then show ?thesis by (simp add: unat_word_ariths mod_add_right_eq)
  qed
  from a seq ts show "case sendRTPPacket client audioData numSamples s of
            (c', buf', s') \<Rightarrow>
              rtpSequence s' = rtpSequence s + 1
            \<and> unat (rtpSequence s') = (unat (rtpSequence s) + 1) mod 2 ^ 16
            \<and> rtpTimestamp s' = rtpTimestamp s + word_of_int numSamples
            \<and> (0 \<le> numSamples \<longrightarrow>
                 unat (rtpTimestamp s') = (unat (rtpTimestamp s) + nat numSamples) mod 2 ^ 32)"
    by (auto simp add: sendRTPPacket_segments split: prod.splits)
next
  assume "startsWith request ''PLAY''"
  then obtain rest where "request = CHR ''P'' # CHR ''L'' # CHR ''A'' # CHR ''Y'' # rest"
    by (cases request; simp add: startsWith_def)
       (metis (no_types, opaque_lifting) append_take_drop_id append_Cons append_Nil)
  then show "case handleRTSPCommand client request now rnd s of
            (c', s') \<Rightarrow> rtpSequence s' = 0 \<and> rtpTimestamp s' = 0 \<and> isStreaming s'"
    by (simp add: handleRTSPCommand_def startsWith_def Let_def simplePrintln_def
        webui_pushLog_def)
qed


theorem rtp_counters_witness:
  "(case sendRTPPacket (rtp_client [100, 100, 100]) [0x0102, 0x0304] 2
          (streaming_state\<lparr>rtpSequence := 65535, rtpTimestamp := 0xFFFFFFFF\<rparr>) of
      (c', buf', s') \<Rightarrow> rtpSequence s' = 0 \<and> rtpTimestamp s' = 1 \<and> audioPacketsSent s' = 1)
   \<and> (case handleRTSPCommand (rtp_client []) ''PLAY rtsp://mic:8554/audio RTSP/1.0'' 5000 0
            (streaming_state\<lparr>rtpSequence := 41, rtpTimestamp := 41984\<rparr>) of
        (c', s') \<Rightarrow> rtpSequence s' = 0 \<and> rtpTimestamp s' = 0 \<and> isStreaming s')"
proof -
  let ?s = "streaming_state\<lparr>rtpSequence := 65535, rtpTimestamp := 0xFFFFFFFF\<rparr>"
  have a: "connected (rtp_client [100, 100, 100])
      \<and> fst (write_segments (rtp_client [100, 100, 100]) (packet_segments [0x0102, 0x0304] 2 ?s))"
    by (simp add: rtp_eval)
  have b: "startsWith ''PLAY rtsp://mic:8554/audio RTSP/1.0'' ''PLAY''"
    by (simp add: startsWith_def)
  have c: "audioPacketsSent
      (snd (snd (sendRTPPacket (rtp_client [100, 100, 100]) [0x0102, 0x0304] 2 ?s))) = 1"
  proof -
    have "audioPacketsSent ?s = 0" by (simp add: streaming_state_def boot_state_def)
    with a show ?thesis by (auto simp add: sendRTPPacket_segments split: prod.splits)
  qed
  from rtp_counters_advance_and_reset_on_play
         [where client = "rtp_client [100, 100, 100]" and audioData = "[0x0102, 0x0304]"
            and numSamples = 2 and s = ?s, THEN conjunct1, rule_format, OF a]
       rtp_counters_advance_and_reset_on_play
         [where request = "''PLAY rtsp://mic:8554/audio RTSP/1.0''" and client = "rtp_client []"
            and now = 5000 and rnd = 0
            and s = "streaming_state\<lparr>rtpSequence := 41, rtpTimestamp := 41984\<rparr>",
          THEN conjunct2, rule_format, OF b]
       c
  show ?thesis by (simp split: prod.splits)
qed

text \<open>
  A call that finds the client disconnected leaves the samples in host byte order.
\<close>

theorem rtp_buffer_swap_counterexample:
  "\<not> connected (rtspClient boot_state)
   \<and> fst (snd (sendRTPPacket (rtspClient boot_state) [0x0102] 1 boot_state)) = [0x0102]
   \<and> swap_samples [0x0102] 1 = [0x0201]"
  by (simp add: sendRTPPacket_def boot_state_def swap_samples_def bswap16_def)

text \<open>
  Claim C10, amended. \<^verbatim>\<open>sendRTPPacket\<close> returns at once, the buffer untouched, when the
  client is not connected. Otherwise it swaps the bytes of the first \<open>numSamples\<close>
  samples of the caller's buffer in place before it writes any segment (the payload
  written is that of the swapped buffer), and the buffer stays swapped after the
  call, also when a write fails and streaming is stopped.
\<close>

theorem rtp_buffer_swapped_in_place_when_connected:
  "(case sendRTPPacket client audioData numSamples s of
      (c', buf', s') \<Rightarrow>
        buf' = (if connected client then swap_samples audioData numSamples else audioData))
   \<and> (connected client \<and> \<not> fst (write_segments client (packet_segments audioData numSamples s))
      \<longrightarrow> (case sendRTPPacket client audioData numSamples s of
             (c', buf', s') \<Rightarrow> buf' = swap_samples audioData numSamples \<and> \<not> isStreaming s'))
   \<and> packet_segments audioData numSamples s ! 2
        = payload_bytes (swap_samples audioData numSamples) numSamples"
proof (intro conjI impI)
  show "case sendRTPPacket client audioData numSamples s of
      (c', buf', s') \<Rightarrow>
        buf' = (if connected client then swap_samples audioData numSamples else audioData)"
  proof (cases "connected client")
    case True
    then show ?thesis by (auto simp add: sendRTPPacket_segments split: prod.splits)
  next
    case False
    then show ?thesis by (simp add: sendRTPPacket_def)
  qed
next
  assume "connected client
      \<and> \<not> fst (write_segments client (packet_segments audioData numSamples s))"
  then show "case sendRTPPacket client audioData numSamples s of
             (c', buf', s') \<Rightarrow> buf' = swap_samples audioData numSamples \<and> \<not> isStreaming s'"
    by (auto simp add: sendRTPPacket_segments split: prod.splits)
next
  show "packet_segments audioData numSamples s ! 2
        = payload_bytes (swap_samples audioData numSamples) numSamples"
    by (simp add: packet_segments_def)
qed

theorem rtp_buffer_swap_witness:
  "connected (rtp_client [4, 5])
   \<and> \<not> fst (write_segments (rtp_client [4, 5])
             (packet_segments [0x0102, 0x0304] 2 streaming_state))
   \<and> (case sendRTPPacket (rtp_client [4, 5]) [0x0102, 0x0304] 2 streaming_state of
         (c', buf', s') \<Rightarrow> buf' = [0x0201, 0x0403] \<and> \<not> isStreaming s')"
proof -
  have a: "connected (rtp_client [4, 5])
     \<and> \<not> fst (write_segments (rtp_client [4, 5])
             (packet_segments [0x0102, 0x0304] 2 streaming_state))"
    by (simp add: rtp_eval)
  have b: "swap_samples [0x0102, 0x0304] 2 = [0x0201, 0x0403]"
    by (simp add: swap_samples_def bswap16_def)
  from rtp_buffer_swapped_in_place_when_connected
         [where client = "rtp_client [4, 5]" and audioData = "[0x0102, 0x0304]"
            and numSamples = 2 and s = streaming_state, THEN conjunct2, THEN conjunct1,
          rule_format, OF a] a b
  show ?thesis by (simp split: prod.splits)
qed

lemma swap_samples_nth:
  "i < nat numSamples \<Longrightarrow> i < length audioData \<Longrightarrow>
     swap_samples audioData numSamples ! i = bswap16 (audioData ! i)"
  by (simp add: swap_samples_def nth_append)

lemma swap_samples_length [simp]: "length (swap_samples audioData numSamples) = length audioData"
  by (simp add: swap_samples_def)



subsection \<open>SignalConditioner: clipping\<close>


lemma amplified_block_length [simp]:
  "length (amplified_block hp gain sh raws f) = length raws"
  by (induction raws arbitrary: f) (simp_all add: Let_def)


lemma amplified_block_Cons:
  "amplified_block hp gain sh (r # rs) f =
     fst (amplify hp gain sh r f) # amplified_block hp gain sh rs (snd (amplify hp gain sh r f))"
  by (simp add: amplify_def Let_def)

lemma block_loop_Cons:
  "block_loop hp gain sh (r # rs) f clipped peakAbs =
     (case block_loop hp gain sh rs (snd (amplify hp gain sh r f))
             (clipped \<or> \<bar>fst (amplify hp gain sh r f)\<bar> > 32767)
             (if \<bar>fst (amplify hp gain sh r f)\<bar> > peakAbs
              then \<bar>fst (amplify hp gain sh r f)\<bar> else peakAbs) of
        (f'', clipped'', peakAbs'', out) \<Rightarrow>
          (f'', clipped'', peakAbs'', f2i16 (saturate (fst (amplify hp gain sh r f))) # out))"
proof -
  have sat: "\<And>a::real. (if (if a > 32767 then 32767 else a) < -32768 then -32768
              else (if a > 32767 then 32767 else a)) = saturate a"
    by (simp add: saturate_def)
  have cl: "\<And>(a::real) c. (if a > 32767 then True else c) = (c \<or> a > 32767)" by auto
  show ?thesis
    unfolding block_loop.simps amplify_def Let_def
    by (simp add: sat cl del: block_loop.simps split del: if_split cong: if_cong)
qed

lemma block_loop_spec:
  "block_loop hp gain sh raws f clipped peakAbs = (f', clipped', peakAbs', out) \<Longrightarrow>
     clipped' = (clipped \<or> (\<exists>a\<in>set (amplified_block hp gain sh raws f). \<bar>a\<bar> > 32767))
   \<and> out = map (\<lambda>a. f2i16 (saturate a)) (amplified_block hp gain sh raws f)"
proof (induction raws arbitrary: f clipped peakAbs f' clipped' peakAbs' out)
  case Nil
  then show ?case by auto
next
  case (Cons r rs)
  let ?a = "fst (amplify hp gain sh r f)"
  let ?f = "snd (amplify hp gain sh r f)"
  let ?c = "clipped \<or> \<bar>?a\<bar> > 32767"
  let ?p = "if \<bar>?a\<bar> > peakAbs then \<bar>?a\<bar> else peakAbs"
  obtain f2 c2 p2 out2 where rec: "block_loop hp gain sh rs ?f ?c ?p = (f2, c2, p2, out2)"
    by (metis prod_cases4)
  from Cons.prems rec have res: "clipped' = c2" "out = f2i16 (saturate ?a) # out2"
    by (simp_all add: block_loop_Cons del: block_loop.simps)
  from Cons.IH [OF rec] have ih:
    "c2 = (?c \<or> (\<exists>a\<in>set (amplified_block hp gain sh rs ?f). \<bar>a\<bar> > 32767))"
    "out2 = map (\<lambda>a. f2i16 (saturate a)) (amplified_block hp gain sh rs ?f)"
    by simp_all
  from res ih show ?case
    by (auto simp add: amplified_block_Cons simp del: amplified_block.simps)
qed

lemma f2i16_saturated:
  "a > 32767 \<Longrightarrow> sint (f2i16 (saturate a)) = 32767"
  "a < -32768 \<Longrightarrow> sint (f2i16 (saturate a)) = -32768"
  by (simp_all add: saturate_def f2i16_def truncf_def)


lemma updateHighpassCoeffs_frame:
  "highpassEnabled (updateHighpassCoeffs s) = highpassEnabled s"
  "currentGainFactor (updateHighpassCoeffs s) = currentGainFactor s"
  "i2sShiftBits (updateHighpassCoeffs s) = i2sShiftBits s"
  "currentBufferSize (updateHighpassCoeffs s) = currentBufferSize s"
  "currentSampleRate (updateHighpassCoeffs s) = currentSampleRate s"
  "highpassCutoffHz (updateHighpassCoeffs s) = highpassCutoffHz s"
  "audioClipCount (updateHighpassCoeffs s) = audioClipCount s"
  "i2s_16bit_buffer (updateHighpassCoeffs s) = i2s_16bit_buffer s"
  "isStreaming (updateHighpassCoeffs s) = isStreaming s"
  "autoThresholdEnabled (updateHighpassCoeffs s) = autoThresholdEnabled s"
  "minAcceptableRate (updateHighpassCoeffs s) = minAcceptableRate s"
  by (simp_all add: updateHighpassCoeffs_def Let_def)

lemma sendRTPPacket_metering:
  assumes "connected client" and "sendRTPPacket client audioData numSamples s = (c', buf', s')"
  shows "audioClippedLastBlock s' = audioClippedLastBlock s"
    and "audioClipCount s' = audioClipCount s"
    and "buf' = swap_samples audioData numSamples"
  using assms by (auto simp add: sendRTPPacket_segments split: prod.splits if_splits)

lemma update_peak_hold_frame:
  "audioClippedLastBlock (update_peak_hold now s) = audioClippedLastBlock s"
  "audioClipCount (update_peak_hold now s) = audioClipCount s"
  "i2s_16bit_buffer (update_peak_hold now s) = i2s_16bit_buffer s"
  by (simp_all add: update_peak_hold_def)

lemma update_metering_effect:
  "audioClippedLastBlock (update_metering c p s) = c"
  "audioClipCount (update_metering c p s) = (if c then audioClipCount s + 1 else audioClipCount s)"
  "i2s_16bit_buffer (update_metering c p s) = i2s_16bit_buffer s"
  by (simp_all add: update_metering_def Let_def)

lemma condition_block_metering:
  assumes "block_loop (highpassEnabled s) (currentGainFactor s) (i2sShiftBits s) raw
             (hpf (if hpfStale s then updateHighpassCoeffs s else s)) False 0 = (f, c, p, out)"
  shows "audioClippedLastBlock (condition_block raw now s) = c"
    and "audioClipCount (condition_block raw now s)
           = (if c then audioClipCount s + 1 else audioClipCount s)"
    and "i2s_16bit_buffer (condition_block raw now s)
           = out @ drop (length out) (i2s_16bit_buffer s)"
proof -
  define s1 where "s1 = (if hpfStale s then updateHighpassCoeffs s else s)"
  have fr: "highpassEnabled s1 = highpassEnabled s" "currentGainFactor s1 = currentGainFactor s"
    "i2sShiftBits s1 = i2sShiftBits s" "audioClipCount s1 = audioClipCount s"
    "i2s_16bit_buffer s1 = i2s_16bit_buffer s"
    by (simp_all add: s1_def updateHighpassCoeffs_frame)
  from assms have bl: "block_loop (highpassEnabled s1) (currentGainFactor s1) (i2sShiftBits s1)
      raw (hpf s1) False 0 = (f, c, p, out)"
    by (simp only: fr s1_def [symmetric])
  have cb: "condition_block raw now s =
      update_peak_hold now (update_metering c p
        (s1\<lparr>hpf := f, i2s_16bit_buffer := out @ drop (length out) (i2s_16bit_buffer s1)\<rparr>))"
    unfolding condition_block_def Let_def s1_def [symmetric] bl by simp
  show "audioClippedLastBlock (condition_block raw now s) = c"
    and "audioClipCount (condition_block raw now s)
           = (if c then audioClipCount s + 1 else audioClipCount s)"
    and "i2s_16bit_buffer (condition_block raw now s)
           = out @ drop (length out) (i2s_16bit_buffer s)"
    unfolding cb by (simp_all add: update_peak_hold_frame update_metering_effect fr)
qed

text \<open>
  Claim C7. Take a block that \<^verbatim>\<open>streamAudio\<close> processes (streaming, client connected,
  \<^verbatim>\<open>i2s_read\<close> succeeded with at least one sample) and the amplified values of its
  samples. The clip flag of the block is set exactly when some amplified value has a
  magnitude above 32767; the clip counter then grows by 1 for the block, however
  many samples exceed, and stays as it was otherwise. Every sample amplified above
  32767 is stored as 32767 and every one below -32768 as -32768. (The buffer is read
  back through \<open>bswap16\<close> because the packetizer has swapped it by the end of the call.)
\<close>

theorem clipped_block_counts_once_and_saturates:
  assumes "isStreaming s" and "connected client" and "ok"
    and "raw = take (unat (currentBufferSize s)) samples" and "raw \<noteq> []"
  shows "let s1 = (if hpfStale s then updateHighpassCoeffs s else s);
             amps = amplified_block (highpassEnabled s) (currentGainFactor s) (i2sShiftBits s)
                      raw (hpf s1);
             clip = (\<exists>a\<in>set amps. \<bar>a\<bar> > 32767);
             s' = snd (streamAudio client (ok, samples) now s)
         in length amps = length raw
          \<and> audioClippedLastBlock s' = clip
          \<and> audioClipCount s' = (if clip then audioClipCount s + 1 else audioClipCount s)
          \<and> (\<forall>i<length amps.
                (amps ! i > 32767 \<longrightarrow> sint (bswap16 (i2s_16bit_buffer s' ! i)) = 32767)
              \<and> (amps ! i < -32768 \<longrightarrow> sint (bswap16 (i2s_16bit_buffer s' ! i)) = -32768))"
proof -
  define s1 where "s1 = (if hpfStale s then updateHighpassCoeffs s else s)"
  define amps where "amps = amplified_block (highpassEnabled s) (currentGainFactor s)
                      (i2sShiftBits s) raw (hpf s1)"
  obtain f c p out where bl:
    "block_loop (highpassEnabled s) (currentGainFactor s) (i2sShiftBits s) raw (hpf s1) False 0
       = (f, c, p, out)"
    by (metis prod_cases4)
  from block_loop_spec [OF bl] have c: "c = (\<exists>a\<in>set amps. \<bar>a\<bar> > 32767)"
    and out: "out = map (\<lambda>a. f2i16 (saturate a)) amps"
    by (simp_all add: amps_def)
  define s3 where "s3 = condition_block raw now s"
  from condition_block_metering [OF bl [unfolded s1_def], of now]
  have s3: "audioClippedLastBlock s3 = c"
    "audioClipCount s3 = (if c then audioClipCount s + 1 else audioClipCount s)"
    "i2s_16bit_buffer s3 = out @ drop (length out) (i2s_16bit_buffer s)"
    by (simp_all add: s3_def)
  obtain c' buf' s4 where send:
    "sendRTPPacket client (i2s_16bit_buffer s3) (int (length raw)) s3 = (c', buf', s4)"
    by (metis prod_cases3)
  have raw_eq: "take (unat (currentBufferSize s)) samples = raw" using assms(4) by simp
  have run: "streamAudio client (ok, samples) now s = (c', s4\<lparr>i2s_16bit_buffer := buf'\<rparr>)"
    using assms(1,2,3,5) send
    by (simp add: streamAudio_def Let_def raw_eq s3_def [symmetric])
  from sendRTPPacket_metering [OF assms(2) send] s3
  have s4: "audioClippedLastBlock s4 = c"
    "audioClipCount s4 = (if c then audioClipCount s + 1 else audioClipCount s)"
    "buf' = swap_samples (out @ drop (length out) (i2s_16bit_buffer s)) (int (length raw))"
    by simp_all
  have len: "length amps = length raw" by (simp add: amps_def)
  have nth: "bswap16 (buf' ! i) = f2i16 (saturate (amps ! i))" if "i < length amps" for i
  proof -
    from that len out have "i < length out" by simp
    with that len out show ?thesis
      by (simp add: s4(3) swap_samples_nth bswap16_involution nth_append)
  qed
  show ?thesis
    unfolding Let_def s1_def [symmetric] amps_def [symmetric] run
    using len s4(1,2) c nth
    by (simp add: f2i16_saturated)
qed


lemma loud_facts:
  "isStreaming loud_state" "\<not> hpfStale loud_state" "highpassEnabled loud_state = False"
  "currentGainFactor loud_state = 2" "i2sShiftBits loud_state = 0"
  "unat (currentBufferSize loud_state) = 1024" "audioClipCount loud_state = 0"
  by (simp_all add: loud_state_def streaming_state_def boot_state_def hpfStale_def)

lemma loud_amps:
  "amplified_block False 2 0 [20000, 100, - 20000] f = [40000, 200, - 40000]"
  "amplified_block False 2 0 [100, 200] f = [200, 400]"
  by (simp_all add: Let_def)

theorem clipped_block_witness:
  "(let s' = snd (streamAudio (rtp_client [100, 100, 100]) (True, [20000, 100, - 20000]) 1000
                    loud_state)
    in amplified_block (highpassEnabled loud_state) (currentGainFactor loud_state)
         (i2sShiftBits loud_state) [20000, 100, - 20000] (hpf loud_state) = [40000, 200, - 40000]
     \<and> audioClippedLastBlock s'
     \<and> audioClipCount loud_state = 0 \<and> audioClipCount s' = 1
     \<and> sint (bswap16 (i2s_16bit_buffer s' ! 0)) = 32767
     \<and> sint (bswap16 (i2s_16bit_buffer s' ! 2)) = - 32768)
   \<and> (let s' = snd (streamAudio (rtp_client [100, 100, 100]) (True, [100, 200]) 1000 loud_state)
      in \<not> audioClippedLastBlock s' \<and> audioClipCount s' = 0)"
proof -
  have c: "connected (rtp_client [100, 100, 100])" by (simp add: rtp_client_def)
  have r1: "[20000, 100, - 20000] = take (unat (currentBufferSize loud_state)) [20000, 100, - 20000 :: 32 word]"
    and r2: "[100, 200] = take (unat (currentBufferSize loud_state)) [100, 200 :: 32 word]"
    by (simp_all add: loud_facts)
  note t1 = clipped_block_counts_once_and_saturates
      [OF loud_facts(1) c TrueI r1, of 1000, unfolded Let_def, simplified loud_facts if_False loud_amps]
  note t2 = clipped_block_counts_once_and_saturates
      [OF loud_facts(1) c TrueI r2, of 1000, unfolded Let_def, simplified loud_facts if_False loud_amps]
  from t1 t2 show ?thesis
    by (simp add: Let_def loud_facts loud_amps)
qed



subsection \<open>SignalConditioner: lazy recomputation of the coefficients\<close>


lemma u2f_nonneg [simp]: "0 \<le> u2f w"
  unfolding u2f_def by (simp del: of_nat_unat)

lemma truncf_u2f [simp]: "truncf (u2f w) = int (unat w)"
  unfolding u2f_def truncf_def by (simp del: of_nat_unat)

lemma f2u16_u2f [simp]: "f2u16 (u2f (c :: 16 word)) = c"
  by (simp add: f2u16_def)

text \<open>With the cutoff inside the clamp range the cached pair equals the configuration.\<close>

lemma hpf_not_stale_after_update_unclamped:
  assumes "10 \<le> u2f (highpassCutoffHz s)"
    and "u2f (highpassCutoffHz s) \<le> u2f (currentSampleRate s) * 0.45"
  shows "\<not> hpfStale (updateHighpassCoeffs s)"
  using assms by (simp add: hpfStale_def updateHighpassCoeffs_def Let_def)

lemma hpf_not_stale_when_disabled:
  "\<not> highpassEnabled s \<Longrightarrow> \<not> hpfStale (updateHighpassCoeffs s)"
  by (simp add: hpfStale_def updateHighpassCoeffs_def)

text \<open>
  With the cutoff above 0.45 times the sample rate, the cached cutoff is the clamped
  one and differs from the configured one: the check stays true after every
  recomputation.
\<close>

lemma hpf_stale_after_update_clamped:
  assumes "highpassEnabled s"
    and "u2f (currentSampleRate s) * 0.45 < u2f (highpassCutoffHz s)"
    and "10 \<le> u2f (highpassCutoffHz s)"
  shows "hpfStale (updateHighpassCoeffs s)"
proof -
  define c where "c = highpassCutoffHz s"
  define x where "x = u2f (currentSampleRate s) * 0.45"
  have x0: "0 \<le> x" unfolding x_def by (intro mult_nonneg_nonneg) simp_all
  then have k0: "0 \<le> \<lfloor>x\<rfloor>" by simp
  have "real_of_int \<lfloor>x\<rfloor> \<le> x" by (rule of_int_floor_le)
  also have "x < real (unat c)" using assms(2) by (simp only: x_def c_def u2f_def)
  finally have lt: "\<lfloor>x\<rfloor> < int (unat c)" by linarith
  define n where "n = nat \<lfloor>x\<rfloor>"
  have n: "\<lfloor>x\<rfloor> = int n" "n < unat c" using k0 lt unfolding n_def by linarith+
  have "unat c < 2 ^ 16" using unsigned_less [of c, where ?'a = nat] by simp
  with n have small: "n mod 2 ^ 16 = n" by simp
  have ne: "(word_of_int \<lfloor>x\<rfloor> :: 16 word) \<noteq> c"
  proof
    assume "(word_of_int \<lfloor>x\<rfloor> :: 16 word) = c"
    then have "unat (word_of_nat n :: 16 word) = unat c" by (simp add: n(1))
    then have "n mod 2 ^ 16 = unat c" by (simp only: unat_of_nat len_of_numeral_defs) simp
    with small n(2) show False by simp
  qed
  have fc: "f2u16 x = word_of_int \<lfloor>x\<rfloor>" using x0 by (simp add: f2u16_def truncf_def)
  have upd: "hpfConfigCutoff (updateHighpassCoeffs s) = f2u16 x"
    "highpassCutoffHz (updateHighpassCoeffs s) = c"
    "highpassEnabled (updateHighpassCoeffs s)"
    using assms unfolding x_def c_def
    by (simp_all add: updateHighpassCoeffs_def Let_def)
  from upd ne fc show ?thesis by (simp add: hpfStale_def)
qed


lemma clamped_facts:
  "highpassEnabled clamped_state"
  "currentSampleRate clamped_state = 8000"
  "highpassCutoffHz clamped_state = 5000"
  by (simp_all add: clamped_state_def boot_state_def)

lemma u2f_numerals: "u2f (8000 :: 32 word) = 8000" "u2f (5000 :: 16 word) = 5000"
  by (simp_all add: u2f_def)

text \<open>
  Claim C8 at a clamped configuration. With 8000 Hz sample rate and 5000 Hz cutoff,
  \<^verbatim>\<open>updateHighpassCoeffs\<close> caches the clamped cutoff 3600 while the configured cutoff
  stays 5000: the staleness check of \<^verbatim>\<open>streamAudio\<close> is true right after the
  recomputation, and true again after the next one, so the coefficients are
  recomputed (and the filter reset) before every block.
\<close>

theorem hpf_recomputed_every_block_when_clamped:
  "highpassEnabled clamped_state
   \<and> hpfConfigSampleRate (updateHighpassCoeffs clamped_state) = 8000
   \<and> hpfConfigCutoff (updateHighpassCoeffs clamped_state) = 3600
   \<and> highpassCutoffHz (updateHighpassCoeffs clamped_state) = 5000
   \<and> hpfStale (updateHighpassCoeffs clamped_state)
   \<and> hpfStale (updateHighpassCoeffs (updateHighpassCoeffs clamped_state))"
proof -
  have cut: "hpfConfigCutoff (updateHighpassCoeffs clamped_state) = 3600"
    "hpfConfigSampleRate (updateHighpassCoeffs clamped_state) = 8000"
    by (simp_all add: updateHighpassCoeffs_def Let_def clamped_facts u2f_numerals f2u16_def
        truncf_def)
  have pre: "u2f (currentSampleRate clamped_state) * 0.45 < u2f (highpassCutoffHz clamped_state)"
    "10 \<le> u2f (highpassCutoffHz clamped_state)"
    by (simp_all add: clamped_facts u2f_numerals)
  have st1: "hpfStale (updateHighpassCoeffs clamped_state)"
    by (rule hpf_stale_after_update_clamped [OF clamped_facts(1) pre])
  have st2: "hpfStale (updateHighpassCoeffs (updateHighpassCoeffs clamped_state))"
    by (rule hpf_stale_after_update_clamped)
       (simp_all add: updateHighpassCoeffs_frame clamped_facts u2f_numerals)
  from cut st1 st2 show ?thesis
    by (simp add: clamped_facts updateHighpassCoeffs_frame)
qed



subsection \<open>ReliabilitySupervisor: the adaptive threshold\<close>

lemma computeRecommendedMinRate_cong:
  "currentSampleRate s' = currentSampleRate s \<Longrightarrow> currentBufferSize s' = currentBufferSize s
     \<Longrightarrow> computeRecommendedMinRate s' = computeRecommendedMinRate s"
  by (simp add: computeRecommendedMinRate_def)

lemma threshold_inv_cong:
  "currentSampleRate s' = currentSampleRate s \<Longrightarrow> currentBufferSize s' = currentBufferSize s
     \<Longrightarrow> autoThresholdEnabled s' = autoThresholdEnabled s
     \<Longrightarrow> minAcceptableRate s' = minAcceptableRate s
     \<Longrightarrow> threshold_inv s' = threshold_inv s"
  by (simp add: threshold_inv_def computeRecommendedMinRate_def)

lemma saveAudioSettings_thr [simp]:
  "threshold_inv (saveAudioSettings s) = threshold_inv s"
  by (rule threshold_inv_cong)
     (simp_all add: saveAudioSettings_def Let_def simplePrintln_def webui_pushLog_def)

lemma webui_pushLog_thr [simp]: "threshold_inv (webui_pushLog m s) = threshold_inv s"
  by (rule threshold_inv_cong) (simp_all add: webui_pushLog_def)

lemma apiSendJSON_thr [simp]: "threshold_inv (apiSendJSON j s) = threshold_inv s"
  by (rule threshold_inv_cong) (simp_all add: apiSendJSON_def)

lemma updateHighpassCoeffs_thr [simp]:
  "threshold_inv (updateHighpassCoeffs s) = threshold_inv s"
  by (rule threshold_inv_cong) (simp_all add: updateHighpassCoeffs_frame)

lemma applyWifiTxPower_thr [simp]:
  "threshold_inv (applyWifiTxPower b s) = threshold_inv s"
  by (rule threshold_inv_cong)
     (simp_all add: applyWifiTxPower_def Let_def simplePrintln_def webui_pushLog_def)

lemma restartI2S_thr:
  "restartI2S heapOk s = Done s' \<Longrightarrow> threshold_inv s' = threshold_inv s"
  by (rule threshold_inv_cong)
     (auto simp add: restartI2S_def Let_def simplePrintln_def webui_pushLog_def
        setup_i2s_driver_def updateHighpassCoeffs_frame split: if_splits)


lemma threshold_inv_recomputed:
  "threshold_inv (s\<lparr>minAcceptableRate := computeRecommendedMinRate s\<rparr>)"
  by (simp add: threshold_inv_def computeRecommendedMinRate_def)

lemma threshold_inv_manual:
  "\<not> autoThresholdEnabled s \<Longrightarrow> threshold_inv s"
  by (simp add: threshold_inv_def)

text \<open>
  Every setter but \<^verbatim>\<open>min_rate\<close> keeps the invariant: \<^verbatim>\<open>rate\<close>, \<^verbatim>\<open>buffer\<close> and
  \<^verbatim>\<open>thr_mode=auto\<close> recompute the threshold at once, the others touch none of the
  four variables.
\<close>

lemma setters_keep_threshold_inv:
  assumes "arg_key req \<noteq> ''min_rate''" and "threshold_inv s"
    and "httpSet_setters heapOk req s = Done s1"
  shows "threshold_inv s1"
proof -
  define s0 where "s0 = (if web_arg_value req \<noteq> []
      then webui_pushLog [Str ''UI set: '', Str (arg_key req), Str ''='', Str (web_arg_value req)] s
      else s)"
  have s0: "threshold_inv s0" using assms(2) by (simp add: s0_def)
  have field: "\<And>f. threshold_inv (s0\<lparr>currentGainFactor := f\<rparr>)"
    "\<And>f. threshold_inv (s0\<lparr>i2sShiftBits := f\<rparr>)"
    "\<And>f. threshold_inv (s0\<lparr>wifiTxPowerDbm := f\<rparr>)"
    "\<And>f. threshold_inv (s0\<lparr>autoRecoveryEnabled := f\<rparr>)"
    "\<And>f. threshold_inv (s0\<lparr>performanceCheckInterval := f\<rparr>)"
    "\<And>f. threshold_inv (s0\<lparr>scheduledResetEnabled := f\<rparr>)"
    "\<And>f. threshold_inv (s0\<lparr>resetIntervalHours := f\<rparr>)"
    "\<And>f g. threshold_inv (s0\<lparr>cpuFrequencyMhz := f, cpuFrequencyApplied := g\<rparr>)"
    "\<And>f. threshold_inv (s0\<lparr>highpassEnabled := f\<rparr>)"
    "\<And>f. threshold_inv (s0\<lparr>highpassCutoffHz := f\<rparr>)"
    "\<And>f. threshold_inv (s0\<lparr>overheatProtectionEnabled := f\<rparr>)"
    "\<And>f. threshold_inv (s0\<lparr>overheatProtectionEnabled := f, overheatLockoutActive := False\<rparr>)"
    "\<And>f. threshold_inv (s0\<lparr>overheatShutdownC := f, overheatLockoutActive := False\<rparr>)"
    "threshold_inv (s0\<lparr>autoThresholdEnabled := False\<rparr>)"
    "threshold_inv (s0\<lparr>autoThresholdEnabled := True,
        minAcceptableRate := computeRecommendedMinRate (s0\<lparr>autoThresholdEnabled := True\<rparr>)\<rparr>)"
    "\<And>v. threshold_inv (if autoThresholdEnabled s0
        then s0\<lparr>currentSampleRate := v,
               minAcceptableRate := computeRecommendedMinRate (s0\<lparr>currentSampleRate := v\<rparr>)\<rparr>
        else s0\<lparr>currentSampleRate := v\<rparr>)"
    "\<And>v. threshold_inv (if autoThresholdEnabled s0
        then s0\<lparr>currentBufferSize := v,
               minAcceptableRate := computeRecommendedMinRate (s0\<lparr>currentBufferSize := v\<rparr>)\<rparr>
        else s0\<lparr>currentBufferSize := v\<rparr>)"
    using s0 by (simp_all add: threshold_inv_def computeRecommendedMinRate_def)
  from assms(1,3) s0 show ?thesis
    unfolding httpSet_setters_def Let_def s0_def [symmetric] after_save_def
    by (auto simp add: field restartI2S_thr split: if_splits)
qed


lemma unat_ucast_16_32: "unat (ucast (w :: 16 word) :: 32 word) = unat w"
  by transfer simp

text \<open>The value of \<^verbatim>\<open>computeRecommendedMinRate\<close> is the formula of the specification.\<close>

lemma computeRecommendedMinRate_formula:
  "unat (computeRecommendedMinRate s) =
     max 5 (nat (round (0.7 * real (unat (currentSampleRate s))
                          / real (max 1 (unat (currentBufferSize s))))))"
proof -
  define r where "r = unat (currentSampleRate s)"
  define b where "b = max 1 (unat (currentBufferSize s))"
  define y where "y = real r / real b * 0.7 + 0.5"
  have b1: "1 \<le> b" by (simp add: b_def)
  have r32: "r < 2 ^ 32" using unsigned_less [of "currentSampleRate s", where ?'a = nat]
    by (simp add: r_def)
  have ub: "u2f (ucast (max 1 (currentBufferSize s)) :: 32 word) = real b"
  proof -
    have "unat (ucast (max 1 (currentBufferSize s)) :: 32 word) = unat (max 1 (currentBufferSize s))"
      by (rule unat_ucast_16_32)
    also have "\<dots> = b" by (simp add: b_def max_def word_le_nat_alt)
    finally show ?thesis by (simp only: u2f_def)
  qed
  have ur: "u2f (currentSampleRate s) = real r" by (simp only: u2f_def r_def)
  have q: "real r / real b \<le> real r"
  proof -
    have "real r / real b \<le> real r / 1" using b1 by (intro divide_left_mono) simp_all
    then show ?thesis by simp
  qed
  have y0: "0 \<le> y" by (simp add: y_def)
  have "y \<le> real r * 0.7 + 0.5" using q by (simp add: y_def)
  also have "\<dots> < 2 ^ 32" using r32 by simp
  finally have y32: "y < 2 ^ 32" .
  define k where "k = nat \<lfloor>y\<rfloor>"
  have ky: "\<lfloor>y\<rfloor> = int k" using y0 by (simp add: k_def)
  have "\<lfloor>y\<rfloor> < 2 ^ 32" using y32 by (simp add: floor_less_iff)
  then have k32: "k < 2 ^ 32" using ky by simp
  have rec: "f2u32 y = word_of_nat k" using y0 ky by (simp add: f2u32_def truncf_def)
  have uk: "unat (word_of_nat k :: 32 word) = k" using k32 by (simp add: unat_of_nat)
  have val: "computeRecommendedMinRate s = (if (word_of_nat k :: 32 word) < 5 then 5 else word_of_nat k)"
    unfolding computeRecommendedMinRate_def Let_def ub ur y_def [symmetric] rec by simp
  have lt5: "(word_of_nat k :: 32 word) < 5 \<longleftrightarrow> k < 5"
    by (simp add: word_less_nat_alt uk)
  have rnd: "round (0.7 * real r / real b) = \<lfloor>y\<rfloor>"
    by (simp add: round_def y_def algebra_simps)
  show ?thesis
    unfolding r_def [symmetric] b_def [symmetric] rnd ky val lt5
    by (simp add: uk)
qed

lemma recommended_48000_1024:
  "computeRecommendedMinRate boot_state = 33"
  by (simp add: computeRecommendedMinRate_def boot_state_def Let_def u2f_def f2u32_def truncf_def)


text \<open>The setter \<^verbatim>\<open>min_rate\<close> writes the threshold whatever the mode is.\<close>

lemma min_rate_setter_auto_mode:
  assumes "arg_key req = ''min_rate''" and "hasArg_value req"
    and "5 \<le> (word_of_int (arg_value_toInt req) :: 32 word)"
    and "(word_of_int (arg_value_toInt req) :: 32 word) \<le> 200"
  shows "\<exists>s'. httpSet heapOk req s = Done s'
           \<and> minAcceptableRate s' = word_of_int (arg_value_toInt req)
           \<and> autoThresholdEnabled s' = autoThresholdEnabled s
           \<and> currentSampleRate s' = currentSampleRate s
           \<and> currentBufferSize s' = currentBufferSize s"
  using assms
  by (simp add: httpSet_def httpSet_setters_def Let_def after_save_def saveAudioSettings_def
      simplePrintln_def webui_pushLog_def apiSendJSON_def)

text \<open>
  Claim C2 at the setter \<^verbatim>\<open>min_rate\<close>. In auto mode, with the threshold at its computed
  value 33 (48000 Hz, 1024 samples), the request \<^verbatim>\<open>min_rate = 100\<close> is carried out:
  afterwards auto mode is still on and the threshold is 100, not the computed 33.
\<close>

theorem min_rate_setter_overrides_auto_threshold:
  "autoThresholdEnabled loaded_state
   \<and> minAcceptableRate loaded_state = computeRecommendedMinRate loaded_state
   \<and> computeRecommendedMinRate loaded_state = 33
   \<and> (case httpSet True min_rate_request loaded_state of
         DeviceRestart r \<Rightarrow> False
       | Done s' \<Rightarrow> autoThresholdEnabled s'
                   \<and> minAcceptableRate s' = 100
                   \<and> computeRecommendedMinRate s' = 33)"
proof -
  have l: "autoThresholdEnabled loaded_state"
    "currentSampleRate loaded_state = currentSampleRate boot_state"
    "currentBufferSize loaded_state = currentBufferSize boot_state"
    "minAcceptableRate loaded_state = computeRecommendedMinRate boot_state"
    by (simp_all add: loaded_state_def boot_state_def)
  have c: "computeRecommendedMinRate loaded_state = computeRecommendedMinRate boot_state"
    by (rule computeRecommendedMinRate_cong) (simp_all add: l)
  have r: "arg_key min_rate_request = ''min_rate''" "hasArg_value min_rate_request"
    "5 \<le> (word_of_int (arg_value_toInt min_rate_request) :: 32 word)"
    "(word_of_int (arg_value_toInt min_rate_request) :: 32 word) \<le> 200"
    "(word_of_int (arg_value_toInt min_rate_request) :: 32 word) = 100"
    by (simp_all add: min_rate_request_def)
  from min_rate_setter_auto_mode [OF r(1-4), of True loaded_state] obtain s' where
    s': "httpSet True min_rate_request loaded_state = Done s'"
      "minAcceptableRate s' = 100" "autoThresholdEnabled s'"
      "currentSampleRate s' = currentSampleRate loaded_state"
      "currentBufferSize s' = currentBufferSize loaded_state"
    using r(5) l(1) by auto
  have "computeRecommendedMinRate s' = computeRecommendedMinRate loaded_state"
    by (rule computeRecommendedMinRate_cong) (simp_all add: s')
  with s' l c recommended_48000_1024 show ?thesis by simp
qed


end
